theory Spec2Isabelle
  imports Complex_Main "HOL-Library.Multiset"
begin

section \<open>Values of a request body\<close>

text \<open>
  The handlers read their input from \<^verbatim>\<open>req.body\<close>, which \<^verbatim>\<open>express.json()\<close> has parsed.
  A property of a parsed entry is one of the JavaScript values below. \<open>JUndefined\<close> is
  what reading an absent property yields; \<open>JNum\<close> carries the numeric value of the parsed
  number (parsing never yields NaN or an infinity); an object or an array is a reference
  \<open>JRef\<close>, compared by identity. On these values the operator \<^verbatim>\<open>===\<close> is equality.
\<close>

datatype jsval = JUndefined | JNull | JBool bool | JNum rat | JStr string | JRef nat

definition strict_eq :: "jsval \<Rightarrow> jsval \<Rightarrow> bool" where
  "strict_eq a b = (a = b)"

section \<open>Double-precision numbers\<close>

text \<open>
  JavaScript numbers are IEEE 754 binary64 values. A finite double is modelled by the
  rational it denotes, and every arithmetic operation returns the exact result rounded
  to the nearest double, ties to the even significand. \<open>expo x\<close> is the binary exponent
  of a positive \<open>x\<close>: the \<open>e\<close> with \<open>2 powi e \<le> x < 2 powi (e + 1)\<close>. The exponent range is
  not bounded: the handlers below only produce magnitudes between \<open>2 powi (- 1022)\<close>
  and \<open>2 powi 1024\<close>, or compare against such magnitudes.
\<close>

function expo :: "rat \<Rightarrow> int" where
  "expo x = (if x \<le> 0 then 0
             else if x < 1 then expo (2 * x) - 1
             else if 2 \<le> x then expo (x / 2) + 1
             else 0)"
  by pat_completeness auto
termination
proof (relation "measure (\<lambda>x. 2 * nat \<lceil>1 / x\<rceil> + nat \<lceil>x\<rceil>)")
  show "wf (measure (\<lambda>x::rat. 2 * nat \<lceil>1 / x\<rceil> + nat \<lceil>x\<rceil>))" by simp
next
  have half: "\<lceil>y / 2\<rceil> < \<lceil>y\<rceil>" if "1 < y" for y :: rat
  proof -
    have "1 < \<lceil>y\<rceil>" using that by (simp add: less_ceiling_iff)
    then have "2 \<le> \<lceil>y\<rceil>" by simp
    then have "(of_int 2 :: rat) \<le> of_int \<lceil>y\<rceil>" by (simp only: of_int_le_iff)
    then have "(2::rat) \<le> of_int \<lceil>y\<rceil>" by simp
    moreover have "y \<le> of_int \<lceil>y\<rceil>" by (rule le_of_int_ceiling)
    ultimately have "y / 2 \<le> of_int \<lceil>y\<rceil> - 1" by linarith
    then have "y / 2 \<le> of_int (\<lceil>y\<rceil> - 1)" by simp
    then have "\<lceil>y / 2\<rceil> \<le> \<lceil>y\<rceil> - 1" by (simp only: ceiling_le_iff)
    then show ?thesis by simp
  qed
  {
    fix x :: rat assume a: "\<not> x \<le> 0" "x < 1"
    have "\<lceil>x\<rceil> = 1" using a by (simp add: ceiling_eq_iff)
    then have c1: "nat \<lceil>x\<rceil> = 1" by simp
    have "\<lceil>2 * x\<rceil> \<le> 2" using a by (simp add: ceiling_le_iff)
    then have c2: "nat \<lceil>2 * x\<rceil> \<le> 2" by linarith
    have "1 < 1 / x" using a by simp
    then have "\<lceil>(1 / x) / 2\<rceil> < \<lceil>1 / x\<rceil>" by (rule half)
    moreover have "1 / (2 * x) = (1 / x) / 2" by simp
    ultimately have c3: "\<lceil>1 / (2 * x)\<rceil> < \<lceil>1 / x\<rceil>" by (simp only:)
    have p: "0 < \<lceil>1 / (2 * x)\<rceil>" using a by (simp add: less_ceiling_iff)
    have c4: "nat \<lceil>1 / (2 * x)\<rceil> < nat \<lceil>1 / x\<rceil>" using c3 p by simp
    have "2 * nat \<lceil>1 / (2 * x)\<rceil> + nat \<lceil>2 * x\<rceil> < 2 * nat \<lceil>1 / x\<rceil> + nat \<lceil>x\<rceil>"
      using c1 c2 c4 by linarith
    then show "(2 * x, x) \<in> measure (\<lambda>x. 2 * nat \<lceil>1 / x\<rceil> + nat \<lceil>x\<rceil>)"
      by (simp only: in_measure)
  next
    fix x :: rat assume a: "\<not> x \<le> 0" "\<not> x < 1" "2 \<le> x"
    have c1: "\<lceil>1 / x\<rceil> = 1" using a by (simp add: ceiling_eq_iff)
    have c2: "\<lceil>1 / (x / 2)\<rceil> = 1" using a by (simp add: ceiling_eq_iff)
    have c3: "\<lceil>x / 2\<rceil> < \<lceil>x\<rceil>" using a by (intro half) simp
    have p: "0 < \<lceil>x / 2\<rceil>" using a by (simp add: less_ceiling_iff)
    have c4: "nat \<lceil>x / 2\<rceil> < nat \<lceil>x\<rceil>" using c3 p by simp
    have "2 * nat \<lceil>1 / (x / 2)\<rceil> + nat \<lceil>x / 2\<rceil> < 2 * nat \<lceil>1 / x\<rceil> + nat \<lceil>x\<rceil>"
      using c1 c2 c4 by linarith
    then show "(x / 2, x) \<in> measure (\<lambda>x. 2 * nat \<lceil>1 / x\<rceil> + nat \<lceil>x\<rceil>)"
      by (simp only: in_measure)
  }
qed

declare expo.simps [simp del]

text \<open>Rounding a non-negative rational to the nearest integer, ties to even.\<close>

definition rne :: "rat \<Rightarrow> int" where
  "rne y = (let f = \<lfloor>y\<rfloor>; d = y - of_int f
            in if d < 1 / 2 then f else if 1 / 2 < d then f + 1
               else if even f then f else f + 1)"

text \<open>Rounding to a double: 53 significant bits in the binade of \<open>x\<close>.\<close>

definition rnd :: "rat \<Rightarrow> rat" where
  "rnd x = (if x = 0 then 0
            else let e = expo \<bar>x\<bar>
                 in sgn x * of_int (rne (\<bar>x\<bar> * 2 powi (52 - e))) * 2 powi (e - 52))"

text \<open>
  The operators \<^verbatim>\<open>/\<close>, \<^verbatim>\<open>*\<close> and \<^verbatim>\<open>-\<close> on doubles, and \<^verbatim>\<open>parseFloat\<close> on the
  decimal numeral that denotes \<open>x\<close> (a numeric literal in the source is read the same way).
  \<^verbatim>\<open>Math.floor\<close> is \<open>\<lfloor>_\<rfloor>\<close>, which is exact.
\<close>

definition fdiv :: "rat \<Rightarrow> rat \<Rightarrow> rat" where
  "fdiv a b = rnd (a / b)"

definition fmul :: "rat \<Rightarrow> rat \<Rightarrow> rat" where
  "fmul a b = rnd (a * b)"

definition fsub :: "rat \<Rightarrow> rat \<Rightarrow> rat" where
  "fsub a b = rnd (a - b)"

definition parseFloat :: "rat \<Rightarrow> rat" where
  "parseFloat x = rnd x"

text \<open>\<^verbatim>\<open>Math.round\<close>: the nearest integer, a tie going up.\<close>

definition Math_round :: "rat \<Rightarrow> int" where
  "Math_round x = \<lfloor>x + 1 / 2\<rfloor>"

section \<open>The store\<close>

text \<open>
  The tables of \<^verbatim>\<open>db/schema.js\<close>, each a list of rows in insertion order, with the
  columns the handlers read or write. A \<^verbatim>\<open>DECIMAL(10,2)\<close> column is the rational it
  holds; a nullable text column is an \<open>option\<close>; the \<^verbatim>\<open>boolean\<close> column \<^verbatim>\<open>is_correct\<close>
  is the truth value that \<^verbatim>\<open>if (o.isCorrect)\<close> tests. The store is reached through
  single statements (no handler opens a store transaction). The store refuses a row of
  \<^verbatim>\<open>test_results\<close> whose \<^verbatim>\<open>user_id\<close> names no user and a row of \<^verbatim>\<open>user_answers\<close>
  whose \<^verbatim>\<open>question_id\<close> is absent, null or names no question (both columns are
  \<^verbatim>\<open>NOT NULL\<close> with a foreign key); the refused statement throws and the handler's
  \<^verbatim>\<open>catch\<close> answers 500. Every other statement is taken to succeed: the range of a
  decimal column is not part of the model.
\<close>

record user_row =
  u_id :: int
  u_username :: string
  u_role :: string
  u_balance :: rat

record question_row =
  q_id :: int
  q_questionText :: string
  q_imageUrl :: "string option"

record option_row =
  o_id :: int
  o_questionId :: int
  o_label :: "string option"
  o_optionText :: "string option"
  o_imageUrl :: "string option"
  o_isCorrect :: bool

record test_row =
  t_id :: int
  t_durationMinutes :: "int option"
  t_published :: bool

record test_result_row =
  tr_id :: int
  tr_userId :: int
  tr_score :: nat
  tr_totalQuestions :: nat
  tr_iqScore :: int

record user_answer_row =
  ua_testResultId :: int
  ua_questionId :: jsval
  ua_selectedAnswer :: jsval
  ua_isCorrect :: nat

record transaction_row =
  tx_id :: int
  tx_senderId :: int
  tx_receiverId :: int
  tx_amount :: rat
  tx_status :: string

record database =
  users :: "user_row list"
  questions :: "question_row list"
  questionOptions :: "option_row list"
  tests :: "test_row list"
  testResults :: "test_result_row list"
  userAnswers :: "user_answer_row list"
  transactions :: "transaction_row list"

text \<open>The \<^verbatim>\<open>insertId\<close> of an auto-increment key: one more than the largest key in use.\<close>

definition insertId :: "int list \<Rightarrow> int" where
  "insertId ids = fold max ids 0 + 1"

text \<open>
  The outcomes of a handler that are not a 2xx response, named after the error kinds of
  the specification, and the status code each is sent with.
\<close>

datatype error =
  ValidationError | NotFoundError | ForbiddenError | InsufficientFundsError
  | InvalidStateError | InternalError

fun http_status :: "error \<Rightarrow> nat" where
  "http_status ValidationError = 400"
| "http_status NotFoundError = 404"
| "http_status ForbiddenError = 403"
| "http_status InsufficientFundsError = 400"
| "http_status InvalidStateError = 400"
| "http_status InternalError = 500"

section \<open>Assessment: \<^verbatim>\<open>routes/test.js\<close>\<close>

subsection \<open>\<^verbatim>\<open>GET /test/questions\<close>\<close>

record option_view =
  ov_label :: "string option"
  ov_optionText :: "string option"

record question_view =
  qv_id :: int
  qv_questionText :: string
  qv_imageUrl :: "string option"
  qv_options :: "option_view list"

record questions_response =
  qr_durationMinutes :: "int option"
  qr_totalQuestions :: "nat option"
  qr_questions :: "question_view list"

text \<open>
  \<^verbatim>\<open>optionsMap\<close>: the \<^verbatim>\<open>forEach\<close> over all option rows appends
  \<^verbatim>\<open>{ label, optionText }\<close> to the array stored under the row's question.
\<close>

definition optionsMap :: "option_row list \<Rightarrow> (int \<rightharpoonup> option_view list)" where
  "optionsMap allOptions =
     fold (\<lambda>opt m. m(o_questionId opt \<mapsto>
                  (case m (o_questionId opt) of None \<Rightarrow> [] | Some arr \<Rightarrow> arr)
                  @ [\<lparr>ov_label = o_label opt, ov_optionText = o_optionText opt\<rparr>]))
          allOptions Map.empty"

text \<open>
  The handler. \<open>sort_random\<close> stands for \<^verbatim>\<open>allQuestions.sort(() => Math.random() - 0.5)\<close>:
  which order comes out is not determined, so it is a parameter, and the theorems assume
  of it only that the result is a rearrangement of the array, as it is whatever the
  comparator returns. The \<^verbatim>\<open>published\<close> column is read as a JavaScript boolean, which
  \<^verbatim>\<open>t.published === 1\<close> compares with a number, so the \<^verbatim>\<open>find\<close> finds nothing and
  the first test row is taken. The \<^verbatim>\<open>tests\<close> table has no \<^verbatim>\<open>totalQuestions\<close>
  column, so \<^verbatim>\<open>test.totalQuestions\<close> is undefined when a test row exists (\<open>None\<close>).
\<close>

definition getQuestions ::
  "(question_row list \<Rightarrow> question_row list) \<Rightarrow> database \<Rightarrow> questions_response" where
  "getQuestions sort_random db =
     (let allQuestions = questions db;
          shuffled = sort_random allQuestions;
          selectedQuestions = take 20 shuffled;
          allOptions = questionOptions db;
          om = optionsMap allOptions;
          selectedWithOptions =
            map (\<lambda>q. \<lparr>qv_id = q_id q, qv_questionText = q_questionText q,
                       qv_imageUrl = q_imageUrl q,
                       qv_options = (case om (q_id q) of None \<Rightarrow> [] | Some arr \<Rightarrow> arr)\<rparr>)
                selectedQuestions;
          allTests = tests db;
          test = (case find (\<lambda>t. strict_eq (JBool (t_published t)) (JNum 1)) allTests of
                    Some t \<Rightarrow> Some t
                  | None \<Rightarrow> (case allTests of [] \<Rightarrow> None | t # _ \<Rightarrow> Some t))
      in \<lparr>qr_durationMinutes = (case test of None \<Rightarrow> None | Some t \<Rightarrow> t_durationMinutes t),
          qr_totalQuestions = (case test of None \<Rightarrow> Some (length selectedQuestions)
                                          | Some t \<Rightarrow> None),
          qr_questions = selectedWithOptions\<rparr>)"

subsection \<open>\<^verbatim>\<open>POST /test/submit\<close>\<close>

text \<open>
  An element of the \<^verbatim>\<open>answers\<close> array. Reading \<^verbatim>\<open>answer.questionId\<close> of \<^verbatim>\<open>null\<close>
  throws a TypeError (\<open>NullEntry\<close>). Of any other element the two reads yield a value,
  \<open>JUndefined\<close> for a property the element does not have: an object without the key,
  a number, a string, a boolean or an array.
\<close>

datatype answer = NullEntry | Entry (questionId: jsval) (selectedAnswer: jsval)

text \<open>
  \<^verbatim>\<open>correctMap\<close>: every option row with \<^verbatim>\<open>isCorrect\<close> set stores its label under its
  question, a later row replacing an earlier one. A label read from the store is a string
  or \<^verbatim>\<open>null\<close>.
\<close>

definition label_value :: "string option \<Rightarrow> jsval" where
  "label_value l = (case l of None \<Rightarrow> JNull | Some s \<Rightarrow> JStr s)"

definition correctMap :: "option_row list \<Rightarrow> (int \<rightharpoonup> jsval)" where
  "correctMap optionsData =
     fold (\<lambda>opt m. if o_isCorrect opt
                       then m(o_questionId opt \<mapsto> label_value (o_label opt)) else m)
          optionsData Map.empty"

text \<open>
  \<^verbatim>\<open>correctMap.get(answer.questionId)\<close>: the keys of the map are the integer question
  ids of the store, so only a number with that value finds an entry.
\<close>

definition map_get :: "(int \<rightharpoonup> jsval) \<Rightarrow> jsval \<Rightarrow> jsval" where
  "map_get m k =
     (case k of
        JNum x \<Rightarrow> (if of_int \<lfloor>x\<rfloor> = x
                   then (case m \<lfloor>x\<rfloor> of None \<Rightarrow> JUndefined | Some v \<Rightarrow> v)
                   else JUndefined)
      | _ \<Rightarrow> JUndefined)"

record answer_result =
  ar_questionId :: jsval
  ar_selectedAnswer :: jsval
  ar_isCorrect :: nat

definition score_answer :: "(int \<rightharpoonup> jsval) \<Rightarrow> answer \<Rightarrow> answer_result" where
  "score_answer cm a =
     (let correctAnswer = map_get cm (questionId a);
          isCorrect = strict_eq (selectedAnswer a) correctAnswer
      in \<lparr>ar_questionId = questionId a, ar_selectedAnswer = selectedAnswer a,
          ar_isCorrect = (if isCorrect then 1 else 0)\<rparr>)"

text \<open>
  The percentage and the IQ score, in the source's order of operations on doubles:
  \<^verbatim>\<open>(correctCount / totalQuestions) * 100\<close>, then the five bands.
\<close>

definition percentage :: "nat \<Rightarrow> nat \<Rightarrow> rat" where
  "percentage correctCount totalQuestions =
     fmul (fdiv (of_nat correctCount) (of_nat totalQuestions)) 100"

definition iqScore :: "rat \<Rightarrow> int" where
  "iqScore p =
     (if 90 \<le> p then 130 + \<lfloor>fmul (fsub p 90) 2\<rfloor>
      else if 75 \<le> p then 115 + \<lfloor>fmul (fsub p 75) 1\<rfloor>
      else if 50 \<le> p then 100 + \<lfloor>fmul (fsub p 50) (parseFloat (6 / 10))\<rfloor>
      else if 25 \<le> p then 85 + \<lfloor>fmul (fsub p 25) (parseFloat (6 / 10))\<rfloor>
      else 70 + \<lfloor>fmul p (parseFloat (6 / 10))\<rfloor>)"

record submit_result =
  sr_id :: int
  sr_score :: nat
  sr_totalQuestions :: nat
  sr_iqScore :: int
  sr_percentage :: int

text \<open>
  What the \<^verbatim>\<open>INT\<close> column \<^verbatim>\<open>question_id\<close> makes of the value handed to it: an absent
  or null value is refused, an integer number is stored as it is. What the store makes
  of any other value (a string, a boolean, a number with a fraction, an object) is the
  parameter \<open>coerce\<close>: the integer it stores, or \<open>None\<close> when it refuses the row.
  \<open>no_coercion\<close> is a store that refuses all of those.
\<close>

definition question_id_column :: "(jsval \<Rightarrow> int option) \<Rightarrow> jsval \<Rightarrow> int option" where
  "question_id_column coerce v =
     (case v of
        JUndefined \<Rightarrow> None
      | JNull \<Rightarrow> None
      | JNum x \<Rightarrow> (if of_int \<lfloor>x\<rfloor> = x then Some \<lfloor>x\<rfloor> else coerce v)
      | _ \<Rightarrow> coerce v)"

definition no_coercion :: "jsval \<Rightarrow> int option" where
  "no_coercion v = None"

definition accepts_question_id :: "(jsval \<Rightarrow> int option) \<Rightarrow> database \<Rightarrow> jsval \<Rightarrow> bool" where
  "accepts_question_id coerce db v =
     (case question_id_column coerce v of
        None \<Rightarrow> False
      | Some q \<Rightarrow> q \<in> q_id ` set (questions db))"

text \<open>
  The loop \<^verbatim>\<open>for (const answer of answerResults) await db.insert(userAnswers)\<close>: the
  rows are written one by one, and the first one the store refuses ends the loop with
  the earlier rows written. The result says whether every row was written.
\<close>

fun insert_answers ::
  "(jsval \<Rightarrow> bool) \<Rightarrow> user_answer_row list \<Rightarrow> user_answer_row list
     \<Rightarrow> user_answer_row list \<times> bool" where
  "insert_answers accepts [] table = (table, True)"
| "insert_answers accepts (row # rows) table =
     (if accepts (ua_questionId row) then insert_answers accepts rows (table @ [row])
      else (table, False))"

text \<open>
  The handler. \<open>answers\<close> is \<open>None\<close> when \<^verbatim>\<open>req.body.answers\<close> is absent or is not an
  array. A \<^verbatim>\<open>null\<close> element makes the scoring callback throw before anything is
  written, and the \<^verbatim>\<open>catch\<close> answers 500. \<open>userId\<close> is the id in the verified token.
  A row of \<^verbatim>\<open>user_answers\<close> is recorded with the values the handler passes for it.
\<close>

definition submit ::
  "(jsval \<Rightarrow> int option) \<Rightarrow> database \<Rightarrow> int \<Rightarrow> answer list option
     \<Rightarrow> database \<times> (error + submit_result)" where
  "submit coerce db userId answers =
     (case answers of
        None \<Rightarrow> (db, Inl ValidationError)
      | Some [] \<Rightarrow> (db, Inl ValidationError)
      | Some as \<Rightarrow>
          (let totalQuestions = length as;
               optionsData = questionOptions db;
               cm = correctMap optionsData
           in if NullEntry \<in> set as then (db, Inl InternalError)
              else
                (let answerResults = map (score_answer cm) as;
                     correctCount = length (filter (\<lambda>r. ar_isCorrect r = 1) answerResults);
                     p = percentage correctCount totalQuestions;
                     iq = iqScore p
                 in if userId \<notin> u_id ` set (users db) then (db, Inl InternalError)
                    else
                      (let testResultId = insertId (map tr_id (testResults db));
                           db1 = db\<lparr>testResults := testResults db @
                                   [\<lparr>tr_id = testResultId, tr_userId = userId,
                                     tr_score = correctCount,
                                     tr_totalQuestions = totalQuestions,
                                     tr_iqScore = iq\<rparr>]\<rparr>;
                           rows = map (\<lambda>r. \<lparr>ua_testResultId = testResultId,
                                              ua_questionId = ar_questionId r,
                                              ua_selectedAnswer = ar_selectedAnswer r,
                                              ua_isCorrect = ar_isCorrect r\<rparr>) answerResults
                       in (case insert_answers (accepts_question_id coerce db) rows
                                  (userAnswers db1) of
                             (table, True) \<Rightarrow>
                               (db1\<lparr>userAnswers := table\<rparr>,
                                Inr \<lparr>sr_id = testResultId, sr_score = correctCount,
                                      sr_totalQuestions = totalQuestions, sr_iqScore = iq,
                                      sr_percentage = Math_round p\<rparr>)
                           | (table, False) \<Rightarrow>
                               (db1\<lparr>userAnswers := table\<rparr>, Inl InternalError))))))"

text \<open>
  The mapping as the specification words it, on exact rationals:
  \<open>percentage = 100 * score / totalQuestions\<close> and the five bands with the factor \<open>0.6\<close>.
\<close>

definition spec_percentage :: "nat \<Rightarrow> nat \<Rightarrow> rat" where
  "spec_percentage score totalQuestions = 100 * of_nat score / of_nat totalQuestions"

definition spec_iqScore :: "rat \<Rightarrow> int" where
  "spec_iqScore p =
     (if 90 \<le> p then 130 + \<lfloor>(p - 90) * 2\<rfloor>
      else if 75 \<le> p then 115 + \<lfloor>(p - 75) * 1\<rfloor>
      else if 50 \<le> p then 100 + \<lfloor>(p - 50) * (6 / 10)\<rfloor>
      else if 25 \<le> p then 85 + \<lfloor>(p - 25) * (6 / 10)\<rfloor>
      else 70 + \<lfloor>p * (6 / 10)\<rfloor>)"

text \<open>The boundary percentages that the specification lists for the mapping.\<close>

definition boundary_percentages :: "rat list" where
  "boundary_percentages =
     [0, 24999 / 1000, 25, 49999 / 1000, 50, 74999 / 1000, 75, 89999 / 1000, 90, 100]"

section \<open>Ledger: \<^verbatim>\<open>routes/transactions.js\<close>\<close>

text \<open>
  A value that a \<^verbatim>\<open>DECIMAL(10,2)\<close> column can hold, and the value the column keeps
  when a decimal with more fractional digits is written to it (rounded to two places,
  a tie going away from zero).
\<close>

definition decimal_10_2 :: "rat \<Rightarrow> bool" where
  "decimal_10_2 x = (of_int \<lfloor>x * 100\<rfloor> = x * 100 \<and> \<bar>x\<bar> < 100000000)"

definition store_decimal :: "rat \<Rightarrow> rat" where
  "store_decimal x = sgn x * of_int \<lfloor>\<bar>x\<bar> * 100 + 1 / 2\<rfloor> / 100"

subsection \<open>\<^verbatim>\<open>GET /transactions/balance\<close>\<close>

definition balanceOf :: "database \<Rightarrow> int \<Rightarrow> error + rat" where
  "balanceOf db userId =
     (case filter (\<lambda>u. u_id u = userId) (users db) of
        [] \<Rightarrow> Inl NotFoundError
      | u # _ \<Rightarrow> Inr (u_balance u))"

subsection \<open>\<^verbatim>\<open>POST /transactions/transfer\<close>\<close>

text \<open>
  \<open>receiverId\<close> is \<open>None\<close> when \<^verbatim>\<open>body("receiverId").isInt()\<close> rejects the field, and else
  the integer \<^verbatim>\<open>parseInt\<close> reads from it. \<open>amount\<close> is \<open>None\<close> when the field is not a
  decimal numeral, and else the number the numeral denotes;
  \<^verbatim>\<open>isFloat({ min: 0.01 })\<close> then compares \<^verbatim>\<open>parseFloat\<close> of it with the double \<open>0.01\<close>.
  \<open>senderId\<close> is the id in the verified token. When no user row has that id,
  \<^verbatim>\<open>sender[0].balance\<close> throws and the \<^verbatim>\<open>catch\<close> answers 500.
\<close>

definition requestTransfer ::
  "database \<Rightarrow> int \<Rightarrow> int option \<Rightarrow> rat option \<Rightarrow> database \<times> (error + int)" where
  "requestTransfer db senderId receiverId amount =
     (case (receiverId, amount) of
        (Some rid, Some a) \<Rightarrow>
          if \<not> parseFloat (1 / 100) \<le> parseFloat a then (db, Inl ValidationError)
          else if senderId = rid then (db, Inl ValidationError)
          else
            (let receiver = filter (\<lambda>u. u_id u = rid) (users db)
             in if receiver = [] then (db, Inl NotFoundError)
                else
                  (case filter (\<lambda>u. u_id u = senderId) (users db) of
                     [] \<Rightarrow> (db, Inl InternalError)
                   | sender # _ \<Rightarrow>
                       if parseFloat (u_balance sender) < parseFloat a
                       then (db, Inl InsufficientFundsError)
                       else
                         (let transactionId = insertId (map tx_id (transactions db))
                          in (db\<lparr>transactions := transactions db @
                                   [\<lparr>tx_id = transactionId, tx_senderId = senderId,
                                     tx_receiverId = rid, tx_amount = store_decimal a,
                                     tx_status = ''pending''\<rparr>]\<rparr>,
                              Inr transactionId))))
      | _ \<Rightarrow> (db, Inl ValidationError))"

subsection \<open>\<^verbatim>\<open>PATCH /transactions/admin/:id/status\<close>\<close>

text \<open>The three \<^verbatim>\<open>UPDATE\<close> statements of the handler.\<close>

definition update_balance :: "int \<Rightarrow> (rat \<Rightarrow> rat) \<Rightarrow> database \<Rightarrow> database" where
  "update_balance userId f db =
     db\<lparr>users := map (\<lambda>u. if u_id u = userId then u\<lparr>u_balance := f (u_balance u)\<rparr> else u)
                       (users db)\<rparr>"

definition update_status :: "int \<Rightarrow> string \<Rightarrow> database \<Rightarrow> database" where
  "update_status txId status db =
     db\<lparr>transactions := map (\<lambda>t. if tx_id t = txId then t\<lparr>tx_status := status\<rparr> else t)
                              (transactions db)\<rparr>"

datatype settle_message = Confirmed | Cancelled

text \<open>
  The handler when nothing else reaches the store while it runs. \<open>role\<close> is the role in
  the verified token (\<^verbatim>\<open>adminMiddleware\<close>), \<open>txId\<close> the parsed route parameter \<^verbatim>\<open>id\<close>,
  \<open>status\<close> the body field that \<^verbatim>\<open>isIn(["completed", "failed"])\<close> validates.
\<close>

definition adminSettle ::
  "database \<Rightarrow> string \<Rightarrow> int \<Rightarrow> string \<Rightarrow> database \<times> (error + settle_message)" where
  "adminSettle db role txId status =
     (if role \<noteq> ''admin'' then (db, Inl ForbiddenError)
      else if status \<notin> set [''completed'', ''failed''] then (db, Inl ValidationError)
      else
        (case filter (\<lambda>t. tx_id t = txId) (transactions db) of
           [] \<Rightarrow> (db, Inl NotFoundError)
         | transaction # _ \<Rightarrow>
             if tx_status transaction \<noteq> ''pending'' then (db, Inl InvalidStateError)
             else if status = ''completed'' then
               (case filter (\<lambda>u. u_id u = tx_senderId transaction) (users db) of
                  [] \<Rightarrow> (db, Inl InternalError)
                | sender # _ \<Rightarrow>
                    if parseFloat (u_balance sender) < parseFloat (tx_amount transaction)
                    then (db, Inl InsufficientFundsError)
                    else
                      (let db1 = update_balance (tx_senderId transaction)
                                   (\<lambda>b. b - tx_amount transaction) db;
                           db2 = update_balance (tx_receiverId transaction)
                                   (\<lambda>b. b + tx_amount transaction) db1;
                           db3 = update_status txId status db2
                       in (db3, Inr Confirmed)))
             else (update_status txId status db, Inr Cancelled)))"

subsection \<open>The same handler, one store statement at a time\<close>

text \<open>
  Each \<^verbatim>\<open>await\<close> of the handler is one statement sent to the store, committed on its
  own; between two of them the handlers of other requests may run, and the process may
  stop. A request in flight is at one of the points below, holding the transaction row
  it has read. A step runs the statement at that point and the synchronous code up to
  the next \<^verbatim>\<open>await\<close> or response.
\<close>

datatype settle_pc =
  AtSelectTransaction
  | AtSelectSender transaction_row
  | AtDebit transaction_row
  | AtCredit transaction_row
  | AtSetStatus
  | Responded "error + settle_message"

record settle_request =
  rq_role :: string
  rq_id :: int
  rq_status :: string

definition settle_begin :: "settle_request \<Rightarrow> settle_pc" where
  "settle_begin rq =
     (if rq_role rq \<noteq> ''admin'' then Responded (Inl ForbiddenError)
      else if rq_status rq \<notin> set [''completed'', ''failed''] then Responded (Inl ValidationError)
      else AtSelectTransaction)"

fun settle_step :: "settle_request \<Rightarrow> database \<times> settle_pc \<Rightarrow> database \<times> settle_pc" where
  "settle_step rq (db, AtSelectTransaction) =
     (case filter (\<lambda>t. tx_id t = rq_id rq) (transactions db) of
        [] \<Rightarrow> (db, Responded (Inl NotFoundError))
      | transaction # _ \<Rightarrow>
          if tx_status transaction \<noteq> ''pending'' then (db, Responded (Inl InvalidStateError))
          else if rq_status rq = ''completed'' then (db, AtSelectSender transaction)
          else (db, AtSetStatus))"
| "settle_step rq (db, AtSelectSender transaction) =
     (case filter (\<lambda>u. u_id u = tx_senderId transaction) (users db) of
        [] \<Rightarrow> (db, Responded (Inl InternalError))
      | sender # _ \<Rightarrow>
          if parseFloat (u_balance sender) < parseFloat (tx_amount transaction)
          then (db, Responded (Inl InsufficientFundsError))
          else (db, AtDebit transaction))"
| "settle_step rq (db, AtDebit transaction) =
     (update_balance (tx_senderId transaction) (\<lambda>b. b - tx_amount transaction) db,
      AtCredit transaction)"
| "settle_step rq (db, AtCredit transaction) =
     (update_balance (tx_receiverId transaction) (\<lambda>b. b + tx_amount transaction) db,
      AtSetStatus)"
| "settle_step rq (db, AtSetStatus) =
     (update_status (rq_id rq) (rq_status rq) db,
      Responded (Inr (if rq_status rq = ''completed'' then Confirmed else Cancelled)))"
| "settle_step rq (db, Responded r) = (db, Responded r)"

text \<open>The handler run without interruption: at most five statements.\<close>

definition settle_run :: "settle_request \<Rightarrow> database \<Rightarrow> database \<times> settle_pc" where
  "settle_run rq db = (settle_step rq ^^ 5) (db, settle_begin rq)"

text \<open>
  Two requests in flight on one store. The schedule says whose statement the store
  runs next: \<open>True\<close> for the first request, \<open>False\<close> for the second.
\<close>

fun interleave ::
  "settle_request \<Rightarrow> settle_request \<Rightarrow> bool list \<Rightarrow> database \<times> settle_pc \<times> settle_pc
     \<Rightarrow> database \<times> settle_pc \<times> settle_pc" where
  "interleave rqA rqB [] s = s"
| "interleave rqA rqB (True # sched) (db, pcA, pcB) =
     (case settle_step rqA (db, pcA) of (db', pcA') \<Rightarrow> interleave rqA rqB sched (db', pcA', pcB))"
| "interleave rqA rqB (False # sched) (db, pcA, pcB) =
     (case settle_step rqB (db, pcB) of (db', pcB') \<Rightarrow> interleave rqA rqB sched (db', pcA, pcB'))"

subsection \<open>Sequences of operations\<close>





section \<open>Example stores\<close>

text \<open>
  The store after \<^verbatim>\<open>db/seed.js\<close> has run: the two seeded users, the default test and
  the two seeded questions with their options. \<open>unkeyed_db\<close> adds a question whose
  options carry no correct designation.
\<close>

definition seed_db :: database where
  "seed_db =
     \<lparr>users = [\<lparr>u_id = 1, u_username = ''admin'', u_role = ''admin'', u_balance = 1000\<rparr>,
               \<lparr>u_id = 2, u_username = ''testuser'', u_role = ''user'', u_balance = 100\<rparr>],
      questions = [\<lparr>q_id = 1, q_questionText = ''8 + 4 = ?'', q_imageUrl = None\<rparr>,
                   \<lparr>q_id = 2, q_questionText = ''2, 6, 12, 20, 30, ?'', q_imageUrl = None\<rparr>],
      questionOptions =
        [\<lparr>o_id = 1, o_questionId = 1, o_label = Some ''A'', o_optionText = Some ''96'',
          o_imageUrl = None, o_isCorrect = False\<rparr>,
         \<lparr>o_id = 2, o_questionId = 1, o_label = Some ''B'', o_optionText = Some ''32'',
          o_imageUrl = None, o_isCorrect = False\<rparr>,
         \<lparr>o_id = 3, o_questionId = 1, o_label = Some ''C'', o_optionText = Some ''12'',
          o_imageUrl = None, o_isCorrect = False\<rparr>,
         \<lparr>o_id = 4, o_questionId = 1, o_label = Some ''D'', o_optionText = Some ''108'',
          o_imageUrl = None, o_isCorrect = True\<rparr>,
         \<lparr>o_id = 5, o_questionId = 2, o_label = Some ''A'', o_optionText = Some ''40'',
          o_imageUrl = None, o_isCorrect = False\<rparr>,
         \<lparr>o_id = 6, o_questionId = 2, o_label = Some ''B'', o_optionText = Some ''42'',
          o_imageUrl = None, o_isCorrect = True\<rparr>,
         \<lparr>o_id = 7, o_questionId = 2, o_label = Some ''C'', o_optionText = Some ''38'',
          o_imageUrl = None, o_isCorrect = False\<rparr>,
         \<lparr>o_id = 8, o_questionId = 2, o_label = Some ''D'', o_optionText = Some ''44'',
          o_imageUrl = None, o_isCorrect = False\<rparr>],
      tests = [\<lparr>t_id = 1, t_durationMinutes = Some 15, t_published = True\<rparr>],
      testResults = [], userAnswers = [], transactions = []\<rparr>"

definition unkeyed_db :: database where
  "unkeyed_db =
     seed_db\<lparr>questions := questions seed_db @
                 [\<lparr>q_id = 3, q_questionText = ''open question'', q_imageUrl = None\<rparr>],
             questionOptions := questionOptions seed_db @
                 [\<lparr>o_id = 9, o_questionId = 3, o_label = Some ''A'', o_optionText = Some ''yes'',
                   o_imageUrl = None, o_isCorrect = False\<rparr>,
                  \<lparr>o_id = 10, o_questionId = 3, o_label = Some ''B'', o_optionText = Some ''no'',
                   o_imageUrl = None, o_isCorrect = False\<rparr>]\<rparr>"

text \<open>
  A ledger with one pending transfer of 30.00 from a user holding 50.00, and the same
  ledger after the sender's balance has dropped to 20.00.
\<close>

definition ledger_db :: database where
  "ledger_db =
     \<lparr>users = [\<lparr>u_id = 1, u_username = ''admin'', u_role = ''admin'', u_balance = 1000\<rparr>,
               \<lparr>u_id = 2, u_username = ''alice'', u_role = ''user'', u_balance = 50\<rparr>,
               \<lparr>u_id = 3, u_username = ''bob'', u_role = ''user'', u_balance = 0\<rparr>],
      questions = [], questionOptions = [], tests = [], testResults = [], userAnswers = [],
      transactions = [\<lparr>tx_id = 1, tx_senderId = 2, tx_receiverId = 3, tx_amount = 30,
                        tx_status = ''pending''\<rparr>]\<rparr>"

definition drifted_db :: database where
  "drifted_db = update_balance 2 (\<lambda>b. 20) ledger_db"

text \<open>
  The ledger after the pending transfer has been settled as \<^verbatim>\<open>completed\<close>, the
  request that settles it and the request that cancels it.
\<close>

definition settled_db :: database where
  "settled_db =
     ledger_db\<lparr>users := [\<lparr>u_id = 1, u_username = ''admin'', u_role = ''admin'', u_balance = 1000\<rparr>,
                           \<lparr>u_id = 2, u_username = ''alice'', u_role = ''user'', u_balance = 20\<rparr>,
                           \<lparr>u_id = 3, u_username = ''bob'', u_role = ''user'', u_balance = 30\<rparr>],
                transactions := [\<lparr>tx_id = 1, tx_senderId = 2, tx_receiverId = 3, tx_amount = 30,
                                  tx_status = ''completed''\<rparr>]\<rparr>"

definition settle_first :: settle_request where
  "settle_first = \<lparr>rq_role = ''admin'', rq_id = 1, rq_status = ''completed''\<rparr>"


section \<open>Evaluating double-precision arithmetic\<close>

text \<open>
  The recursive equation of \<open>expo\<close> is used in three guarded forms, each of which
  applies only once its guard is decided.
\<close>

lemma expo_lt1: "0 < x \<Longrightarrow> x < 1 \<Longrightarrow> expo x = expo (2 * x) - 1"
  by (subst expo.simps) simp

lemma expo_ge2: "2 \<le> x \<Longrightarrow> expo x = expo (x / 2) + 1"
  by (subst expo.simps) simp

lemma expo_unit: "1 \<le> x \<Longrightarrow> x < 2 \<Longrightarrow> expo x = 0"
  by (subst expo.simps) simp

lemma floor_rat_numeral: "\<lfloor>numeral a / numeral b :: rat\<rfloor> = numeral a div numeral b"
  by (metis floor_divide_of_int_eq of_int_numeral)

lemmas dbl_eval = rnd_def rne_def fmul_def fdiv_def fsub_def parseFloat_def Let_def
  expo_lt1 expo_ge2 expo_unit floor_rat_numeral

section \<open>Properties of rounding to a double\<close>

lemma expo_bounds:
  "0 < x \<Longrightarrow> 2 powi (expo x) \<le> x \<and> x < 2 powi (expo x + 1)"
proof (induction x rule: expo.induct)
  case (1 x)
  show ?case
  proof (cases "x < 1")
    case True
    with "1.prems" have ih: "2 powi (expo (2 * x)) \<le> 2 * x \<and> 2 * x < 2 powi (expo (2 * x) + 1)"
      using "1.IH"(1) by simp
    have e: "expo x = expo (2 * x) - 1" using "1.prems" True by (rule expo_lt1)
    have p1: "(2::rat) powi (expo (2 * x)) = 2 * 2 powi (expo (2 * x) - 1)"
      using power_int_add_1' [of "2::rat" "expo (2 * x) - 1"] by simp
    have p2: "(2::rat) powi (expo (2 * x) + 1) = 2 * 2 powi (expo (2 * x))"
      using power_int_add_1' [of "2::rat" "expo (2 * x)"] by simp
    show ?thesis using ih unfolding e p2 using p1 by simp
  next
    case False
    note nl = False
    show ?thesis
    proof (cases "2 \<le> x")
      case True
      with "1.prems" nl have ih: "2 powi (expo (x / 2)) \<le> x / 2 \<and> x / 2 < 2 powi (expo (x / 2) + 1)"
        using "1.IH"(2) by simp
      have e: "expo x = expo (x / 2) + 1" using True by (rule expo_ge2)
      have p1: "(2::rat) powi (expo (x / 2) + 1) = 2 * 2 powi (expo (x / 2))"
        using power_int_add_1' [of "2::rat" "expo (x / 2)"] by simp
      have p2: "(2::rat) powi (expo (x / 2) + 1 + 1) = 2 * 2 powi (expo (x / 2) + 1)"
        using power_int_add_1' [of "2::rat" "expo (x / 2) + 1"] by simp
      show ?thesis using ih unfolding e p2 using p1 by simp
    next
      case False
      have e: "expo x = 0" using False nl by (intro expo_unit) simp_all
      show ?thesis using False nl unfolding e by simp
    qed
  qed
qed

lemma rne_error: "\<bar>of_int (rne y) - y\<bar> \<le> 1 / 2"
proof -
  have "of_int \<lfloor>y\<rfloor> \<le> y" "y < of_int \<lfloor>y\<rfloor> + 1" by linarith+
  then show ?thesis unfolding rne_def Let_def by (auto simp: abs_le_iff)
qed

lemma rnd_error: "\<bar>rnd x - x\<bar> \<le> \<bar>x\<bar> / 2 ^ 53"
proof (cases "x = 0")
  case True
  then show ?thesis by (simp add: rnd_def)
next
  case False
  define e where "e = expo \<bar>x\<bar>"
  define y where "y = \<bar>x\<bar> * 2 powi (52 - e)"
  define u :: rat where "u = 2 powi (e - 52)"
  define m :: rat where "m = of_int (rne y)"
  have upos: "0 < u" unfolding u_def by simp
  have inv: "2 powi (52 - e) * u = (1::rat)"
    unfolding u_def using power_int_add [of "2::rat" "52 - e" "e - 52"] by simp
  have xy: "\<bar>x\<bar> = y * u" unfolding y_def using inv by (simp add: mult.assoc)
  have r: "rnd x = sgn x * m * u"
    using False unfolding rnd_def e_def y_def u_def m_def Let_def by simp
  have x: "x = sgn x * (y * u)" using mult_sgn_abs [of x] xy by simp
  have "rnd x - x = sgn x * ((m - y) * u)"
    unfolding r by (subst (2) x) (simp add: algebra_simps)
  then have "\<bar>rnd x - x\<bar> = \<bar>m - y\<bar> * u"
    using False upos by (simp add: abs_mult abs_sgn_eq)
  also have "\<dots> \<le> (1 / 2) * u"
    using rne_error [of y] upos unfolding m_def by (intro mult_right_mono) simp_all
  also have "\<dots> \<le> \<bar>x\<bar> / 2 ^ 53"
  proof -
    have b: "2 powi e \<le> \<bar>x\<bar>" using expo_bounds [of "\<bar>x\<bar>"] False unfolding e_def by simp
    have "(2::rat) powi e = 2 powi (e - 52) * 2 powi 52"
      using power_int_add [of "2::rat" "e - 52" 52] by simp
    then have "u * 2 ^ 52 \<le> \<bar>x\<bar>" using b unfolding u_def by simp
    then show ?thesis by simp
  qed
  finally show ?thesis .
qed

lemma parseFloat_nonpos: "x \<le> 0 \<Longrightarrow> parseFloat x \<le> 0"
proof -
  assume a: "x \<le> 0"
  have "rnd x - x \<le> \<bar>x\<bar> / 2 ^ 53"
    using rnd_error [of x] abs_ge_self [of "rnd x - x"] by linarith
  moreover have "\<bar>x\<bar> / 2 ^ 53 \<le> \<bar>x\<bar> / 1"
    by (intro divide_left_mono) simp_all
  moreover have "\<bar>x\<bar> = - x" using a by simp
  ultimately have "rnd x \<le> 0" by simp
  then show ?thesis by (simp add: parseFloat_def)
qed

lemma parseFloat_hundredth: "parseFloat (1 / 100) = 5764607523034235 / 576460752303423488"
  by (simp add: dbl_eval)

lemma decimal_10_2_gap:
  assumes "decimal_10_2 a" "decimal_10_2 b" "a < b"
  shows "a + 1 / 100 \<le> b"
proof -
  have ea: "of_int \<lfloor>a * 100\<rfloor> = a * 100" and eb: "of_int \<lfloor>b * 100\<rfloor> = b * 100"
    using assms(1,2) unfolding decimal_10_2_def by blast+
  have "a * 100 < b * 100" using assms(3) by simp
  then have "(of_int \<lfloor>a * 100\<rfloor> :: rat) < of_int \<lfloor>b * 100\<rfloor>" by (simp only: ea eb)
  then have "\<lfloor>a * 100\<rfloor> < \<lfloor>b * 100\<rfloor>" by (simp only: of_int_less_iff)
  then have "\<lfloor>a * 100\<rfloor> + 1 \<le> \<lfloor>b * 100\<rfloor>" by simp
  then have "(of_int (\<lfloor>a * 100\<rfloor> + 1) :: rat) \<le> of_int \<lfloor>b * 100\<rfloor>" by (simp only: of_int_le_iff)
  then have "of_int \<lfloor>a * 100\<rfloor> + 1 \<le> (of_int \<lfloor>b * 100\<rfloor> :: rat)" by simp
  then have "a * 100 + 1 \<le> b * 100" by (simp only: ea eb)
  then show ?thesis by linarith
qed

lemma decimal_10_2_rounds_close:
  assumes "decimal_10_2 a"
  shows "\<bar>parseFloat a - a\<bar> < 1 / 200"
proof -
  have "\<bar>rnd a - a\<bar> \<le> \<bar>a\<bar> / 2 ^ 53" by (rule rnd_error)
  also have "\<dots> \<le> 100000000 / 2 ^ 53" using assms by (simp add: decimal_10_2_def divide_right_mono)
  also have "\<dots> < 1 / 200" by simp
  finally show ?thesis by (simp add: parseFloat_def)
qed

lemma parseFloat_less_decimal:
  assumes "decimal_10_2 a" "decimal_10_2 b"
  shows "parseFloat a < parseFloat b \<longleftrightarrow> a < b"
proof -
  have lt: "parseFloat x < parseFloat y" if "decimal_10_2 x" "decimal_10_2 y" "x < y" for x y
    using decimal_10_2_gap [OF that] decimal_10_2_rounds_close [OF that(1)]
      decimal_10_2_rounds_close [OF that(2)]
    unfolding abs_less_iff by linarith
  show ?thesis
  proof (cases a b rule: linorder_cases)
    case less
    then show ?thesis using lt [OF assms] by simp
  next
    case equal
    then show ?thesis by simp
  next
    case greater
    then show ?thesis using lt [OF assms(2) assms(1)] by simp
  qed
qed

lemma hundredths_gap:
  fixes a b :: rat
  assumes "of_int \<lfloor>a * 100\<rfloor> = a * 100" and "of_int \<lfloor>b * 100\<rfloor> = b * 100" and "a < b"
  shows "a + 1 / 100 \<le> b"
proof -
  have "a * 100 < b * 100" using assms(3) by simp
  then have "(of_int \<lfloor>a * 100\<rfloor> :: rat) < of_int \<lfloor>b * 100\<rfloor>" by (simp only: assms(1,2))
  then have "\<lfloor>a * 100\<rfloor> < \<lfloor>b * 100\<rfloor>" by (simp only: of_int_less_iff)
  then have "\<lfloor>a * 100\<rfloor> + 1 \<le> \<lfloor>b * 100\<rfloor>" by simp
  then have "(of_int (\<lfloor>a * 100\<rfloor> + 1) :: rat) \<le> of_int \<lfloor>b * 100\<rfloor>" by (simp only: of_int_le_iff)
  then have "of_int \<lfloor>a * 100\<rfloor> + 1 \<le> (of_int \<lfloor>b * 100\<rfloor> :: rat)" by simp
  then have "a * 100 + 1 \<le> b * 100" by (simp only: assms(1,2))
  then show ?thesis by linarith
qed

subsection \<open>Rounding to a double is monotone\<close>

lemma rne_mono:
  assumes "x \<le> y"
  shows "rne x \<le> rne y"
proof (cases "\<lfloor>x\<rfloor> = \<lfloor>y\<rfloor>")
  case True
  then show ?thesis using assms unfolding rne_def Let_def by auto
next
  case False
  have "\<lfloor>x\<rfloor> \<le> \<lfloor>y\<rfloor>" using assms by (rule floor_mono)
  then have "\<lfloor>x\<rfloor> + 1 \<le> \<lfloor>y\<rfloor>" using False by simp
  moreover have "rne x \<le> \<lfloor>x\<rfloor> + 1" unfolding rne_def Let_def by simp
  moreover have "\<lfloor>y\<rfloor> \<le> rne y" unfolding rne_def Let_def by simp
  ultimately show ?thesis by linarith
qed

lemma rne_of_int: "rne (of_int n) = n"
  by (simp add: rne_def)

lemma rnd_pos:
  "0 < x \<Longrightarrow> rnd x = of_int (rne (x * 2 powi (52 - expo x))) * 2 powi (expo x - 52)"
  by (simp add: rnd_def Let_def)

lemma rnd_binade:
  assumes "0 < x"
  shows "2 powi (expo x) \<le> rnd x \<and> rnd x \<le> 2 powi (expo x + 1)"
proof -
  define e where "e = expo x"
  define s :: rat where "s = 2 powi (52 - e)"
  define u :: rat where "u = 2 powi (e - 52)"
  have spos: "0 < s" and upos: "0 < u" unfolding s_def u_def by simp_all
  have b: "2 powi e \<le> x" "x < 2 powi (e + 1)"
    using expo_bounds [OF assms] unfolding e_def by simp_all
  have s1: "2 powi e * s = 2 ^ 52"
    unfolding s_def using power_int_add [of "2::rat" e "52 - e"] by simp
  have s2: "2 powi (e + 1) * s = 2 ^ 53"
    unfolding s_def using power_int_add [of "2::rat" "e + 1" "52 - e"] by simp
  have u1: "2 ^ 52 * u = 2 powi e"
    unfolding u_def using power_int_add [of "2::rat" 52 "e - 52"] by simp
  have u2: "2 ^ 53 * u = 2 powi (e + 1)"
    unfolding u_def using power_int_add [of "2::rat" 53 "e - 52"] by (simp add: add.commute)
  have "2 powi e * s \<le> x * s" using b(1) spos by (intro mult_right_mono) simp_all
  then have l: "of_int (2 ^ 52) \<le> x * s" unfolding s1 by simp
  have "x * s \<le> 2 powi (e + 1) * s" using b(2) spos by (intro mult_right_mono) simp_all
  then have h: "x * s \<le> of_int (2 ^ 53)" unfolding s2 by simp
  have "2 ^ 52 \<le> rne (x * s)" using rne_mono [OF l] unfolding rne_of_int .
  then have "(of_int (2 ^ 52) :: rat) \<le> of_int (rne (x * s))" by (simp only: of_int_le_iff)
  then have "of_int (2 ^ 52) * u \<le> of_int (rne (x * s)) * u"
    using upos by (intro mult_right_mono) simp_all
  then have lo: "2 powi e \<le> of_int (rne (x * s)) * u" using u1 by simp
  have "rne (x * s) \<le> 2 ^ 53" using rne_mono [OF h] unfolding rne_of_int .
  then have "(of_int (rne (x * s)) :: rat) \<le> of_int (2 ^ 53)" by (simp only: of_int_le_iff)
  then have "of_int (rne (x * s)) * u \<le> of_int (2 ^ 53) * u"
    using upos by (intro mult_right_mono) simp_all
  then have hi: "of_int (rne (x * s)) * u \<le> 2 powi (e + 1)" using u2 by simp
  show ?thesis using lo hi unfolding rnd_pos [OF assms] e_def s_def u_def by simp
qed

lemma rnd_mono_pos:
  assumes "0 < x" and "x \<le> y"
  shows "rnd x \<le> rnd y"
proof -
  have ypos: "0 < y" using assms by simp
  have "2 powi (expo x) \<le> x" using expo_bounds [OF assms(1)] by simp
  also have "x \<le> y" by (rule assms(2))
  also have "y < 2 powi (expo y + 1)" using expo_bounds [OF ypos] by simp
  finally have "(2::rat) powi (expo x) < 2 powi (expo y + 1)" .
  then have "expo x < expo y + 1"
    using power_int_increasing [of "expo y + 1" "expo x" "2::rat"] by (cases "expo x < expo y + 1") auto
  then have le: "expo x \<le> expo y" by simp
  show ?thesis
  proof (cases "expo x = expo y")
    case True
    have "x * 2 powi (52 - expo y) \<le> y * 2 powi (52 - expo y)"
      using assms(2) by (intro mult_right_mono) simp_all
    then have "rne (x * 2 powi (52 - expo y)) \<le> rne (y * 2 powi (52 - expo y))"
      by (rule rne_mono)
    then have "(of_int (rne (x * 2 powi (52 - expo y))) :: rat)
                 \<le> of_int (rne (y * 2 powi (52 - expo y)))"
      by (simp only: of_int_le_iff)
    then have "of_int (rne (x * 2 powi (52 - expo y))) * 2 powi (expo y - 52)
                 \<le> of_int (rne (y * 2 powi (52 - expo y))) * (2::rat) powi (expo y - 52)"
      by (intro mult_right_mono) simp_all
    then show ?thesis unfolding rnd_pos [OF assms(1)] rnd_pos [OF ypos] True .
  next
    case False
    then have "expo x + 1 \<le> expo y" using le by simp
    then have "(2::rat) powi (expo x + 1) \<le> 2 powi (expo y)"
      by (intro power_int_increasing) simp_all
    then show ?thesis using rnd_binade [OF assms(1)] rnd_binade [OF ypos] by linarith
  qed
qed

lemma parseFloat_mono:
  assumes "x \<le> y"
  shows "parseFloat x \<le> parseFloat y"
proof (cases "0 < x")
  case True
  then show ?thesis using assms by (simp add: parseFloat_def rnd_mono_pos)
next
  case False
  note nx = False
  show ?thesis
  proof (cases "0 < y")
    case True
    have "rnd x \<le> 0" using nx parseFloat_nonpos [of x] by (simp add: parseFloat_def)
    moreover have "(0::rat) < 2 powi (expo y)" by simp
    then have "0 < rnd y" using rnd_binade [OF True] by linarith
    ultimately show ?thesis by (simp add: parseFloat_def)
  next
    case False
    have sg: "rnd (- z) = - rnd z" for z by (simp add: rnd_def Let_def sgn_minus)
    show ?thesis
    proof (cases "y = 0")
      case True
      then show ?thesis using nx parseFloat_nonpos [of x] by (simp add: parseFloat_def rnd_def)
    next
      case False
      then have "0 < - y" "- y \<le> - x" using \<open>\<not> 0 < y\<close> assms by simp_all
      then have "rnd (- y) \<le> rnd (- x)" by (rule rnd_mono_pos)
      then show ?thesis unfolding sg by (simp add: parseFloat_def)
    qed
  qed
qed

lemma parseFloat_gap:
  assumes "(\<bar>a\<bar> + \<bar>b\<bar>) / 2 ^ 53 < a - b"
  shows "parseFloat b < parseFloat a"
proof -
  have "\<bar>rnd a - a\<bar> \<le> \<bar>a\<bar> / 2 ^ 53" "\<bar>rnd b - b\<bar> \<le> \<bar>b\<bar> / 2 ^ 53"
    by (rule rnd_error)+
  moreover have "(\<bar>a\<bar> + \<bar>b\<bar>) / 2 ^ 53 = \<bar>a\<bar> / 2 ^ 53 + \<bar>b\<bar> / 2 ^ 53"
    by (simp add: add_divide_distrib)
  ultimately show ?thesis using assms unfolding parseFloat_def abs_le_iff by linarith
qed

lemma parseFloat_hundredth_above:
  assumes "\<bar>b\<bar> < 100000000" and "b + 1 / 100 \<le> a"
  shows "parseFloat b < parseFloat a"
proof (rule parseFloat_gap)
  have "\<bar>a\<bar> \<le> (a - b) + \<bar>b\<bar>" using assms(2) by linarith
  then have "\<bar>a\<bar> + \<bar>b\<bar> \<le> (a - b) + 200000000" using assms(1) by linarith
  then have "(\<bar>a\<bar> + \<bar>b\<bar>) / 2 ^ 53 \<le> ((a - b) + 200000000) / 2 ^ 53"
    by (intro divide_right_mono) simp_all
  also have "\<dots> < a - b" using assms(2) by simp
  finally show "(\<bar>a\<bar> + \<bar>b\<bar>) / 2 ^ 53 < a - b" .
qed

section \<open>Properties of the assessment handlers\<close>

subsection \<open>What \<^verbatim>\<open>POST /test/submit\<close> returns and writes\<close>

lemma score_answer_isCorrect:
  "ar_isCorrect (score_answer cm a) = (if selectedAnswer a = map_get cm (questionId a) then 1 else 0)"
  by (simp add: score_answer_def strict_eq_def Let_def)

lemma score_answer_correct_iff:
  "ar_isCorrect (score_answer cm a) = Suc 0 \<longleftrightarrow> selectedAnswer a = map_get cm (questionId a)"
  by (simp add: score_answer_isCorrect)

lemma score_answer_fields:
  "ar_questionId (score_answer cm a) = questionId a"
  "ar_selectedAnswer (score_answer cm a) = selectedAnswer a"
  by (simp_all add: score_answer_def Let_def)

lemma filter_correct_results:
  "filter (\<lambda>r. ar_isCorrect r = 1) (map (score_answer cm) as)
     = map (score_answer cm) (filter (\<lambda>a. selectedAnswer a = map_get cm (questionId a)) as)"
  by (induction as) (auto simp: score_answer_isCorrect)

lemma insert_answers_takeWhile:
  "insert_answers accepts rows table
     = (table @ takeWhile (\<lambda>row. accepts (ua_questionId row)) rows,
        \<forall>row \<in> set rows. accepts (ua_questionId row))"
  by (induction rows arbitrary: table) auto

lemma accepts_integer_question_id:
  "accepts_question_id coerce db (JNum (of_int q)) \<longleftrightarrow> q \<in> q_id ` set (questions db)"
  by (simp add: accepts_question_id_def question_id_column_def)

lemma refuses_absent_question_id:
  "\<not> accepts_question_id coerce db JUndefined" "\<not> accepts_question_id coerce db JNull"
  by (simp_all add: accepts_question_id_def question_id_column_def)

lemma refuses_unknown_question_id:
  "q \<notin> q_id ` set (questions db) \<Longrightarrow> \<not> accepts_question_id coerce db (JNum (of_int q))"
  by (simp add: accepts_integer_question_id)

lemma submit_rejected:
  "answers = None \<or> answers = Some [] \<Longrightarrow> submit coerce db userId answers = (db, Inl ValidationError)"
  by (auto simp: submit_def)

lemma submit_null_entry:
  "NullEntry \<in> set as \<Longrightarrow> submit coerce db userId (Some as) = (db, Inl InternalError)"
  by (cases as) (auto simp: submit_def Let_def)

lemma submit_unknown_user:
  "as \<noteq> [] \<Longrightarrow> NullEntry \<notin> set as \<Longrightarrow> userId \<notin> u_id ` set (users db)
     \<Longrightarrow> submit coerce db userId (Some as) = (db, Inl InternalError)"
  by (cases as) (auto simp: submit_def Let_def)

lemma submit_written:
  assumes "as \<noteq> []" and "NullEntry \<notin> set as" and "userId \<in> u_id ` set (users db)"
  shows "submit coerce db userId (Some as) =
     (let cm = correctMap (questionOptions db);
          correctCount = length (filter (\<lambda>a. selectedAnswer a = map_get cm (questionId a)) as);
          p = percentage correctCount (length as);
          testResultId = insertId (map tr_id (testResults db))
      in (db\<lparr>testResults := testResults db @
                [\<lparr>tr_id = testResultId, tr_userId = userId, tr_score = correctCount,
                  tr_totalQuestions = length as, tr_iqScore = iqScore p\<rparr>],
             userAnswers := userAnswers db @
                map (\<lambda>a. \<lparr>ua_testResultId = testResultId, ua_questionId = questionId a,
                           ua_selectedAnswer = selectedAnswer a,
                           ua_isCorrect = ar_isCorrect (score_answer cm a)\<rparr>)
                    (takeWhile (\<lambda>a. accepts_question_id coerce db (questionId a)) as)\<rparr>,
          if \<forall>a \<in> set as. accepts_question_id coerce db (questionId a)
          then Inr \<lparr>sr_id = testResultId, sr_score = correctCount,
                    sr_totalQuestions = length as, sr_iqScore = iqScore p,
                    sr_percentage = Math_round p\<rparr>
          else Inl InternalError))"
  using assms
  unfolding submit_def Let_def insert_answers_takeWhile
  by (simp add: list.case_eq_if bool.case_eq_if score_answer_correct_iff score_answer_fields o_def takeWhile_map)

lemma submit_accepted:
  assumes "as \<noteq> []" and "NullEntry \<notin> set as" and "userId \<in> u_id ` set (users db)"
    and "\<forall>a \<in> set as. accepts_question_id coerce db (questionId a)"
  shows "\<exists>db' r. submit coerce db userId (Some as) = (db', Inr r)
           \<and> sr_totalQuestions r = length as
           \<and> sr_score r = length (filter (\<lambda>a. selectedAnswer a = map_get (correctMap (questionOptions db)) (questionId a)) as)
           \<and> sr_iqScore r = iqScore (percentage (sr_score r) (length as))
           \<and> sr_percentage r = Math_round (percentage (sr_score r) (length as))
           \<and> testResults db' = testResults db @
                [\<lparr>tr_id = sr_id r, tr_userId = userId, tr_score = sr_score r,
                  tr_totalQuestions = length as, tr_iqScore = sr_iqScore r\<rparr>]
           \<and> userAnswers db' = userAnswers db @
                map (\<lambda>a. \<lparr>ua_testResultId = sr_id r, ua_questionId = questionId a,
                           ua_selectedAnswer = selectedAnswer a,
                           ua_isCorrect = ar_isCorrect (score_answer (correctMap (questionOptions db)) a)\<rparr>) as
           \<and> transactions db' = transactions db \<and> users db' = users db
           \<and> questionOptions db' = questionOptions db"
proof -
  have t: "takeWhile (\<lambda>a. accepts_question_id coerce db (questionId a)) as = as"
    using assms(4) by (simp add: takeWhile_eq_all_conv)
  show ?thesis
    unfolding submit_written [OF assms(1,2,3)] Let_def t using assms(4) by simp
qed

lemma submit_InrD:
  assumes "submit coerce db userId answers = (db', Inr r)"
  shows "\<exists>as. answers = Some as \<and> as \<noteq> [] \<and> NullEntry \<notin> set as
           \<and> userId \<in> u_id ` set (users db)
           \<and> (\<forall>a \<in> set as. accepts_question_id coerce db (questionId a))
           \<and> sr_totalQuestions r = length as
           \<and> sr_score r = length (filter (\<lambda>a. selectedAnswer a = map_get (correctMap (questionOptions db)) (questionId a)) as)
           \<and> sr_iqScore r = iqScore (percentage (sr_score r) (length as))
           \<and> sr_percentage r = Math_round (percentage (sr_score r) (length as))
           \<and> testResults db' = testResults db @
                [\<lparr>tr_id = sr_id r, tr_userId = userId, tr_score = sr_score r,
                  tr_totalQuestions = length as, tr_iqScore = sr_iqScore r\<rparr>]
           \<and> userAnswers db' = userAnswers db @
                map (\<lambda>a. \<lparr>ua_testResultId = sr_id r, ua_questionId = questionId a,
                           ua_selectedAnswer = selectedAnswer a,
                           ua_isCorrect = ar_isCorrect (score_answer (correctMap (questionOptions db)) a)\<rparr>) as
           \<and> transactions db' = transactions db \<and> users db' = users db
           \<and> questionOptions db' = questionOptions db"
proof (cases answers)
  case None
  with assms show ?thesis by (simp add: submit_rejected)
next
  case (Some as)
  show ?thesis
  proof (cases "as = [] \<or> NullEntry \<in> set as \<or> userId \<notin> u_id ` set (users db)")
    case True
    then have "submit coerce db userId answers = (db, Inl ValidationError)
               \<or> submit coerce db userId answers = (db, Inl InternalError)"
      unfolding Some
      using submit_rejected [of "Some as" coerce db userId] submit_null_entry [of as coerce db userId]
        submit_unknown_user [of as userId db coerce]
      by blast
    with assms show ?thesis by auto
  next
    case False
    then have ne: "as \<noteq> []" "NullEntry \<notin> set as" "userId \<in> u_id ` set (users db)" by auto
    have all: "\<forall>a \<in> set as. accepts_question_id coerce db (questionId a)"
    proof (rule ccontr)
      assume "\<not> ?thesis"
      then have "snd (submit coerce db userId (Some as)) = Inl InternalError"
        unfolding submit_written [OF ne] Let_def by simp
      with assms Some show False by simp
    qed
    from submit_accepted [OF ne all, of ] assms Some ne all show ?thesis
      by auto
  qed
qed

subsection \<open>Scoring of a submitted pair\<close>

text \<open>
  The label kept for a question is that of its last option row marked correct. An entry
  that carries a selected answer is scored correct exactly when the question id is a
  number naming a question with a kept label and the answer equals that label.
\<close>

lemma correctMap_fold:
  "fold (\<lambda>opt m. if o_isCorrect opt
                   then m(o_questionId opt \<mapsto> label_value (o_label opt)) else m) opts m q
   = (case filter (\<lambda>opt. o_isCorrect opt \<and> o_questionId opt = q) opts of
        [] \<Rightarrow> m q
      | x # xs \<Rightarrow> Some (label_value (o_label (last (x # xs)))))"
proof (induction opts arbitrary: m)
  case Nil
  show ?case by simp
next
  case (Cons opt opts)
  show ?case
    by (simp add: Cons.IH split: list.splits)
qed

lemma correctMap_last:
  "correctMap optionsData q
   = (case filter (\<lambda>opt. o_isCorrect opt \<and> o_questionId opt = q) optionsData of
        [] \<Rightarrow> None
      | x # xs \<Rightarrow> Some (label_value (o_label (last (x # xs)))))"
  unfolding correctMap_def correctMap_fold by simp

lemma given_answer_scored_by_label:
  assumes "selectedAnswer a \<noteq> JUndefined"
  shows "ar_isCorrect (score_answer cm a) = 1
         \<longleftrightarrow> (\<exists>q. questionId a = JNum (of_int q) \<and> cm q = Some (selectedAnswer a))"
proof -
  have "selectedAnswer a = map_get cm (questionId a)
        \<longleftrightarrow> (\<exists>q. questionId a = JNum (of_int q) \<and> cm q = Some (selectedAnswer a))"
  proof
    assume e: "selectedAnswer a = map_get cm (questionId a)"
    then have n: "map_get cm (questionId a) \<noteq> JUndefined" using assms by simp
    then obtain x where x: "questionId a = JNum x"
      by (cases "questionId a") (simp_all add: map_get_def)
    from n x have i: "of_int \<lfloor>x\<rfloor> = x" by (auto simp: map_get_def split: if_splits)
    from n x i e have "cm \<lfloor>x\<rfloor> = Some (selectedAnswer a)"
      by (auto simp: map_get_def split: option.splits)
    with x i show "\<exists>q. questionId a = JNum (of_int q) \<and> cm q = Some (selectedAnswer a)"
      by metis
  next
    assume "\<exists>q. questionId a = JNum (of_int q) \<and> cm q = Some (selectedAnswer a)"
    then show "selectedAnswer a = map_get cm (questionId a)"
      by (auto simp: map_get_def)
  qed
  then show ?thesis by (simp add: score_answer_isCorrect)
qed

text \<open>
  Claim C2. Each submitted pair is scored correct exactly when its selected answer equals
  the stored correct label of its question, and a question with no resolvable correctness
  counts as incorrect. The handler compares with \<^verbatim>\<open>===\<close> against
  \<^verbatim>\<open>correctMap.get(answer.questionId)\<close>, which is \<^verbatim>\<open>undefined\<close> for such a question;
  an entry that carries no \<^verbatim>\<open>selectedAnswer\<close> reads as \<^verbatim>\<open>undefined\<close> too, and the two
  are equal. Question 3 of \<open>unkeyed_db\<close> has no correct option, and the submission
  \<^verbatim>\<open>[{ questionId: 3 }]\<close> is scored 1 of 1, with IQ score 150.
\<close>

theorem submit_scores_absent_answer_correct:
  "submit no_coercion unkeyed_db 2 (Some [Entry (JNum 3) JUndefined]) =
     (unkeyed_db\<lparr>testResults :=
                    [\<lparr>tr_id = 1, tr_userId = 2, tr_score = 1, tr_totalQuestions = 1,
                      tr_iqScore = 150\<rparr>],
                  userAnswers :=
                    [\<lparr>ua_testResultId = 1, ua_questionId = JNum 3,
                      ua_selectedAnswer = JUndefined, ua_isCorrect = 1\<rparr>]\<rparr>,
      Inr \<lparr>sr_id = 1, sr_score = 1, sr_totalQuestions = 1, sr_iqScore = 150,
            sr_percentage = 100\<rparr>)
   \<and> correctMap (questionOptions unkeyed_db) 3 = None"
  by code_simp

subsection \<open>Rejected submissions\<close>

lemma submit_not_validation_error:
  assumes "as \<noteq> []"
  shows "snd (submit coerce db userId (Some as)) \<noteq> Inl ValidationError"
proof (cases "NullEntry \<in> set as")
  case True
  then show ?thesis by (simp add: submit_null_entry)
next
  case False
  show ?thesis
  proof (cases "userId \<in> u_id ` set (users db)")
    case True
    show ?thesis unfolding submit_written [OF assms False True] Let_def by simp
  next
    case False
    then show ?thesis using submit_unknown_user [OF assms \<open>NullEntry \<notin> set as\<close>] by simp
  qed
qed

lemma submit_answers_required:
  "snd (submit coerce db userId answers) = Inl ValidationError
     \<longleftrightarrow> answers = None \<or> answers = Some []"
proof (cases "answers = None \<or> answers = Some []")
  case True
  then show ?thesis by (auto simp: submit_rejected)
next
  case False
  then obtain as where "answers = Some as" "as \<noteq> []" by auto
  then show ?thesis using submit_not_validation_error [of as coerce db userId] by simp
qed

text \<open>
  Claim C5, as the handler has it. The submission fails with ValidationError (status 400)
  exactly when \<^verbatim>\<open>answers\<close> is absent, is not an array or is the empty array, and then
  the store is left as it was. The entries of a non-empty array are not validated. An
  array with a \<^verbatim>\<open>null\<close> element is answered with status 500 and nothing is written. For
  any other non-empty array sent by an existing user a \<^verbatim>\<open>TestResult\<close> row is written,
  and \<^verbatim>\<open>UserAnswer\<close> rows are written for the entries up to the first one whose
  \<^verbatim>\<open>questionId\<close> the store refuses. When every \<^verbatim>\<open>questionId\<close> is an integer naming a
  question, whatever the \<^verbatim>\<open>selectedAnswer\<close> fields are (absent included), the submission
  is answered with its result and one \<^verbatim>\<open>UserAnswer\<close> row per entry is written. When some
  entry has no \<^verbatim>\<open>questionId\<close>, or one that is \<^verbatim>\<open>null\<close> or an integer naming no
  question, the response is status 500 and the \<^verbatim>\<open>TestResult\<close> row and the
  \<^verbatim>\<open>UserAnswer\<close> rows of the entries before it stay in the store.
\<close>

theorem submit_validation_error_iff:
  "(snd (submit coerce db userId answers) = Inl ValidationError
      \<longleftrightarrow> answers = None \<or> answers = Some [])
   \<and> (snd (submit coerce db userId answers) = Inl ValidationError
      \<longrightarrow> fst (submit coerce db userId answers) = db)
   \<and> (\<forall>as. answers = Some as \<and> NullEntry \<in> set as
      \<longrightarrow> submit coerce db userId answers = (db, Inl InternalError))
   \<and> (\<forall>as. answers = Some as \<and> as \<noteq> [] \<and> NullEntry \<notin> set as \<and> userId \<in> u_id ` set (users db)
      \<longrightarrow> (\<exists>row. testResults (fst (submit coerce db userId answers)) = testResults db @ [row]
                  \<and> tr_userId row = userId \<and> tr_totalQuestions row = length as)
        \<and> (\<exists>rows. userAnswers (fst (submit coerce db userId answers)) = userAnswers db @ rows
                  \<and> map ua_questionId rows
                      = map questionId
                          (takeWhile (\<lambda>a. accepts_question_id coerce db (questionId a)) as))
        \<and> ((\<forall>a \<in> set as. \<exists>q. questionId a = JNum (of_int q) \<and> q \<in> q_id ` set (questions db))
              \<longrightarrow> (\<exists>r. snd (submit coerce db userId answers) = Inr r)
                \<and> length (userAnswers (fst (submit coerce db userId answers)))
                    = length (userAnswers db) + length as)
        \<and> ((\<exists>a \<in> set as. questionId a = JUndefined \<or> questionId a = JNull
                 \<or> (\<exists>q. questionId a = JNum (of_int q) \<and> q \<notin> q_id ` set (questions db)))
              \<longrightarrow> snd (submit coerce db userId answers) = Inl InternalError))"
proof (intro conjI allI impI)
  show "(snd (submit coerce db userId answers) = Inl ValidationError)
          = (answers = None \<or> answers = Some [])"
    by (rule submit_answers_required)
next
  assume "snd (submit coerce db userId answers) = Inl ValidationError"
  then have "answers = None \<or> answers = Some []" by (simp only: submit_answers_required)
  then show "fst (submit coerce db userId answers) = db" by (auto simp: submit_rejected)
next
  fix as assume "answers = Some as \<and> NullEntry \<in> set as"
  then show "submit coerce db userId answers = (db, Inl InternalError)"
    by (simp add: submit_null_entry)
next
  fix as
  assume h: "answers = Some as \<and> as \<noteq> [] \<and> NullEntry \<notin> set as \<and> userId \<in> u_id ` set (users db)"
  then have w: "submit coerce db userId answers =
     (let cm = correctMap (questionOptions db);
          correctCount = length (filter (\<lambda>a. selectedAnswer a = map_get cm (questionId a)) as);
          p = percentage correctCount (length as);
          testResultId = insertId (map tr_id (testResults db))
      in (db\<lparr>testResults := testResults db @
                [\<lparr>tr_id = testResultId, tr_userId = userId, tr_score = correctCount,
                  tr_totalQuestions = length as, tr_iqScore = iqScore p\<rparr>],
             userAnswers := userAnswers db @
                map (\<lambda>a. \<lparr>ua_testResultId = testResultId, ua_questionId = questionId a,
                           ua_selectedAnswer = selectedAnswer a,
                           ua_isCorrect = ar_isCorrect (score_answer cm a)\<rparr>)
                    (takeWhile (\<lambda>a. accepts_question_id coerce db (questionId a)) as)\<rparr>,
          if \<forall>a \<in> set as. accepts_question_id coerce db (questionId a)
          then Inr \<lparr>sr_id = testResultId, sr_score = correctCount,
                    sr_totalQuestions = length as, sr_iqScore = iqScore p,
                    sr_percentage = Math_round p\<rparr>
          else Inl InternalError))"
    using submit_written [of as userId db coerce] by simp
  show "\<exists>row. testResults (fst (submit coerce db userId answers)) = testResults db @ [row]
                  \<and> tr_userId row = userId \<and> tr_totalQuestions row = length as"
    unfolding w Let_def by simp
  show "\<exists>rows. userAnswers (fst (submit coerce db userId answers)) = userAnswers db @ rows
                  \<and> map ua_questionId rows
                      = map questionId
                          (takeWhile (\<lambda>a. accepts_question_id coerce db (questionId a)) as)"
    unfolding w Let_def by (simp add: o_def)
  {
    assume a: "\<forall>a \<in> set as. \<exists>q. questionId a = JNum (of_int q) \<and> q \<in> q_id ` set (questions db)"
    have all: "\<forall>a \<in> set as. accepts_question_id coerce db (questionId a)"
      using a accepts_integer_question_id by metis
    then have t: "takeWhile (\<lambda>a. accepts_question_id coerce db (questionId a)) as = as"
      by (simp add: takeWhile_eq_all_conv)
    show "\<exists>r. snd (submit coerce db userId answers) = Inr r"
      unfolding w Let_def using all by simp
    show "length (userAnswers (fst (submit coerce db userId answers)))
                    = length (userAnswers db) + length as"
      unfolding w Let_def t by simp
  next
    assume "\<exists>a \<in> set as. questionId a = JUndefined \<or> questionId a = JNull
                 \<or> (\<exists>q. questionId a = JNum (of_int q) \<and> q \<notin> q_id ` set (questions db))"
    then obtain a where a: "a \<in> set as"
      and r: "questionId a = JUndefined \<or> questionId a = JNull
                 \<or> (\<exists>q. questionId a = JNum (of_int q) \<and> q \<notin> q_id ` set (questions db))"
      by blast
    have "\<not> accepts_question_id coerce db (questionId a)"
      using r refuses_absent_question_id [of coerce db] refuses_unknown_question_id [of _ db coerce]
      by auto
    then have "\<not> (\<forall>a \<in> set as. accepts_question_id coerce db (questionId a))"
      using a by blast
    then show "snd (submit coerce db userId answers) = Inl InternalError"
      unfolding w Let_def by simp
  }
qed

theorem submit_validation_error_iff_witness:
  "snd (submit no_coercion seed_db 2 (Some [])) = Inl ValidationError
   \<and> fst (submit no_coercion seed_db 2 (Some [])) = seed_db
   \<and> submit no_coercion seed_db 2 (Some [Entry (JNum 1) (JStr ''D''), NullEntry])
       = (seed_db, Inl InternalError)
   \<and> (\<exists>r. snd (submit no_coercion seed_db 2 (Some [Entry (JNum 1) JUndefined])) = Inr r)
   \<and> length (userAnswers (fst (submit no_coercion seed_db 2 (Some [Entry (JNum 1) JUndefined])))) = 1
   \<and> snd (submit no_coercion seed_db 2
            (Some [Entry (JNum 1) (JStr ''D''), Entry JUndefined (JStr ''A''),
                   Entry (JNum 2) (JStr ''B'')])) = Inl InternalError
   \<and> length (testResults (fst (submit no_coercion seed_db 2
            (Some [Entry (JNum 1) (JStr ''D''), Entry JUndefined (JStr ''A''),
                   Entry (JNum 2) (JStr ''B'')])))) = 1
   \<and> map ua_questionId (userAnswers (fst (submit no_coercion seed_db 2
            (Some [Entry (JNum 1) (JStr ''D''), Entry JUndefined (JStr ''A''),
                   Entry (JNum 2) (JStr ''B'')])))) = [JNum 1]
   \<and> snd (submit no_coercion seed_db 2 (Some [Entry (JNum 9) (JStr ''A'')])) = Inl InternalError
   \<and> length (testResults (fst (submit no_coercion seed_db 2
            (Some [Entry (JNum 9) (JStr ''A'')])))) = 1"
proof -
  have usr: "2 \<in> u_id ` set (users seed_db)" by (simp add: seed_db_def)
  have q9: "\<exists>q. JNum 9 = JNum (of_int q) \<and> q \<notin> q_id ` set (questions seed_db)"
    by (rule exI [of _ 9]) (simp add: seed_db_def)
  have q1: "\<exists>q. JNum 1 = JNum (of_int q) \<and> q \<in> q_id ` set (questions seed_db)"
    by (rule exI [of _ 1]) (simp add: seed_db_def)
  have a1: "accepts_question_id no_coercion seed_db (JNum 1)"
    by (simp add: accepts_question_id_def question_id_column_def seed_db_def)
  have a0: "\<not> accepts_question_id no_coercion seed_db JUndefined"
    by (simp add: accepts_question_id_def question_id_column_def)
  have e: "userAnswers seed_db = []" "testResults seed_db = []" by (simp_all add: seed_db_def)
  let ?bad = "[Entry (JNum 1) (JStr ''D''), Entry JUndefined (JStr ''A''),
               Entry (JNum 2) (JStr ''B'')]"
  have c1: "snd (submit no_coercion seed_db 2 (Some [])) = Inl ValidationError
            \<and> fst (submit no_coercion seed_db 2 (Some [])) = seed_db"
    using submit_validation_error_iff [of no_coercion seed_db 2 "Some []"] by simp
  have c2: "submit no_coercion seed_db 2 (Some [Entry (JNum 1) (JStr ''D''), NullEntry])
              = (seed_db, Inl InternalError)"
    using submit_validation_error_iff [of no_coercion seed_db 2
        "Some [Entry (JNum 1) (JStr ''D''), NullEntry]"] by simp
  have c3: "(\<exists>r. snd (submit no_coercion seed_db 2 (Some [Entry (JNum 1) JUndefined])) = Inr r)
     \<and> length (userAnswers (fst (submit no_coercion seed_db 2 (Some [Entry (JNum 1) JUndefined])))) = 1"
    using submit_validation_error_iff [of no_coercion seed_db 2 "Some [Entry (JNum 1) JUndefined]"]
      usr q1 e by simp
  have c4: "snd (submit no_coercion seed_db 2 (Some ?bad)) = Inl InternalError
     \<and> length (testResults (fst (submit no_coercion seed_db 2 (Some ?bad)))) = 1
     \<and> map ua_questionId (userAnswers (fst (submit no_coercion seed_db 2 (Some ?bad)))) = [JNum 1]"
    using submit_validation_error_iff [of no_coercion seed_db 2 "Some ?bad"] usr a1 a0 e
    by auto
  have c5: "snd (submit no_coercion seed_db 2 (Some [Entry (JNum 9) (JStr ''A'')])) = Inl InternalError
     \<and> length (testResults (fst (submit no_coercion seed_db 2
            (Some [Entry (JNum 9) (JStr ''A'')])))) = 1"
    using submit_validation_error_iff [of no_coercion seed_db 2 "Some [Entry (JNum 9) (JStr ''A'')]"]
      usr q9 e
    by auto
  show ?thesis using c1 c2 c3 c4 c5 by (simp only: simp_thms)
qed

text \<open>
  The claim as worded also asks for status 400, and for nothing written, when an entry
  lacks a field. On the seeded store the submission \<^verbatim>\<open>[{ questionId: 1 }]\<close> is answered
  with a result, and a \<^verbatim>\<open>TestResult\<close> row and a \<^verbatim>\<open>UserAnswer\<close> row are written. The
  submission \<^verbatim>\<open>[{ selectedAnswer: "A" }]\<close> is answered with status 500, not 400, and its
  \<^verbatim>\<open>TestResult\<close> row is written.
\<close>

theorem submit_accepts_entry_without_selectedAnswer:
  "snd (submit no_coercion seed_db 2 (Some [Entry (JNum 1) JUndefined]))
     = Inr \<lparr>sr_id = 1, sr_score = 0, sr_totalQuestions = 1, sr_iqScore = 70,
             sr_percentage = 0\<rparr>
   \<and> testResults (fst (submit no_coercion seed_db 2 (Some [Entry (JNum 1) JUndefined])))
       = [\<lparr>tr_id = 1, tr_userId = 2, tr_score = 0, tr_totalQuestions = 1, tr_iqScore = 70\<rparr>]
   \<and> userAnswers (fst (submit no_coercion seed_db 2 (Some [Entry (JNum 1) JUndefined])))
       = [\<lparr>ua_testResultId = 1, ua_questionId = JNum 1, ua_selectedAnswer = JUndefined,
           ua_isCorrect = 0\<rparr>]
   \<and> submit no_coercion seed_db 2 (Some [Entry JUndefined (JStr ''A'')])
       = (seed_db\<lparr>testResults :=
                     [\<lparr>tr_id = 1, tr_userId = 2, tr_score = 0, tr_totalQuestions = 1,
                       tr_iqScore = 70\<rparr>]\<rparr>,
          Inl InternalError)"
  by code_simp

subsection \<open>Repeated question ids\<close>

text \<open>
  Claim C10. When the submitted list names the same question more than once, every
  occurrence is scored on its own against the same correct label, and every occurrence
  counts in both \<open>score\<close> and \<open>totalQuestions\<close>. A non-empty list of entries of an existing
  user, each naming an existing question by its integer id (repeated or not), is always
  answered with a result. In every result the score is the sum over the entries of the
  list, one \<^verbatim>\<open>UserAnswer\<close> row is written per entry, and a list that repeats one
  correctly answered question has a score equal to its length.
\<close>

theorem submit_counts_every_occurrence:
  "(as \<noteq> [] \<and> NullEntry \<notin> set as \<and> userId \<in> u_id ` set (users db)
      \<and> (\<forall>a \<in> set as. \<exists>q. questionId a = JNum (of_int q) \<and> q \<in> q_id ` set (questions db))
     \<longrightarrow> (\<exists>db' r. submit coerce db userId (Some as) = (db', Inr r)))
   \<and> (\<forall>db' r. submit coerce db userId (Some as) = (db', Inr r)
     \<longrightarrow> sr_totalQuestions r = length as
       \<and> sr_score r = (\<Sum>a\<leftarrow>as. if selectedAnswer a = map_get (correctMap (questionOptions db)) (questionId a) then 1 else 0)
       \<and> length (userAnswers db') = length (userAnswers db) + length as
       \<and> map ua_isCorrect (drop (length (userAnswers db)) (userAnswers db'))
           = map (\<lambda>a. if selectedAnswer a = map_get (correctMap (questionOptions db)) (questionId a) then 1 else 0) as
       \<and> (\<forall>q. (\<forall>a \<in> set as. a = Entry q (map_get (correctMap (questionOptions db)) q))
              \<longrightarrow> sr_score r = length as))
   \<and> (\<forall>answers db' r. submit coerce db userId answers = (db', Inr r)
     \<longrightarrow> (\<exists>as'. answers = Some as' \<and> sr_totalQuestions r = length as'))"
proof (intro conjI allI impI)
  assume h: "as \<noteq> [] \<and> NullEntry \<notin> set as \<and> userId \<in> u_id ` set (users db)
      \<and> (\<forall>a \<in> set as. \<exists>q. questionId a = JNum (of_int q) \<and> q \<in> q_id ` set (questions db))"
  then have all: "\<forall>a \<in> set as. accepts_question_id coerce db (questionId a)"
    using accepts_integer_question_id by metis
  from h all submit_accepted [of as userId db coerce]
  show "\<exists>db' r. submit coerce db userId (Some as) = (db', Inr r)" by blast
next
  fix answers db' r
  assume "submit coerce db userId answers = (db', Inr r)"
  from submit_InrD [OF this]
  show "\<exists>as'. answers = Some as' \<and> sr_totalQuestions r = length as'" by blast
next
  fix db' r
  assume a: "submit coerce db userId (Some as) = (db', Inr r)"
  let ?cm = "correctMap (questionOptions db)"
  let ?ok = "\<lambda>a. selectedAnswer a = map_get ?cm (questionId a)"
  from submit_InrD [OF a] have t: "sr_totalQuestions r = length as"
    and s: "sr_score r = length (filter ?ok as)"
    and u: "userAnswers db' = userAnswers db @
                map (\<lambda>a. \<lparr>ua_testResultId = sr_id r, ua_questionId = questionId a,
                           ua_selectedAnswer = selectedAnswer a,
                           ua_isCorrect = ar_isCorrect (score_answer ?cm a)\<rparr>) as"
    by auto
  have c: "length (filter P xs) = (\<Sum>a\<leftarrow>xs. if P a then 1 else 0)" for P and xs :: "answer list"
    by (induction xs) auto
  show "sr_totalQuestions r = length as" by (rule t)
  show "sr_score r = (\<Sum>a\<leftarrow>as. if ?ok a then 1 else 0)"
    using s c [of ?ok as] by simp
  show "length (userAnswers db') = length (userAnswers db) + length as"
    unfolding u by simp
  show "map ua_isCorrect (drop (length (userAnswers db)) (userAnswers db'))
             = map (\<lambda>a. if ?ok a then 1 else 0) as"
    unfolding u by (simp add: o_def score_answer_isCorrect)
  show "sr_score r = length as" if "\<forall>a \<in> set as. a = Entry q (map_get ?cm q)" for q
  proof -
    have "filter ?ok as = as" using that by (auto simp: filter_id_conv)
    then show ?thesis using s by simp
  qed
qed

theorem submit_counts_every_occurrence_witness:
  "2 \<in> u_id ` set (users seed_db)
   \<and> questionId (Entry (JNum 1) (JStr ''D'')) = JNum (of_int 1)
   \<and> 1 \<in> q_id ` set (questions seed_db)
   \<and> (\<exists>db' r. submit no_coercion seed_db 2
         (Some [Entry (JNum 1) (JStr ''D''), Entry (JNum 1) (JStr ''D''), Entry (JNum 1) (JStr ''D'')])
          = (db', Inr r)
        \<and> sr_score r = 3 \<and> sr_totalQuestions r = 3
        \<and> length (userAnswers db') = 3
        \<and> map ua_isCorrect (userAnswers db') = [1, 1, 1])"
proof -
  let ?as = "[Entry (JNum 1) (JStr ''D''), Entry (JNum 1) (JStr ''D''), Entry (JNum 1) (JStr ''D'')]"
  have usr: "2 \<in> u_id ` set (users seed_db)" by (simp add: seed_db_def)
  have "\<exists>q. JNum 1 = JNum (of_int q) \<and> q \<in> q_id ` set (questions seed_db)"
    by (rule exI [of _ 1]) (simp add: seed_db_def)
  then have q: "\<forall>a \<in> set ?as. \<exists>q. questionId a = JNum (of_int q) \<and> q \<in> q_id ` set (questions seed_db)"
    by simp
  have ok: "map_get (correctMap (questionOptions seed_db)) (JNum 1) = JStr ''D''"
    by (simp add: map_get_def correctMap_def seed_db_def label_value_def)
  have e: "userAnswers seed_db = []" by (simp add: seed_db_def)
  note t = submit_counts_every_occurrence [of ?as 2 seed_db no_coercion]
  from t usr q obtain db' r where s: "submit no_coercion seed_db 2 (Some ?as) = (db', Inr r)"
    by auto
  from t s have "sr_totalQuestions r = 3" "sr_score r = 3" "length (userAnswers db') = 3"
    "map ua_isCorrect (userAnswers db') = [1, 1, 1]"
    by (simp_all add: ok e)
  moreover have "(1::int) \<in> q_id ` set (questions seed_db)" by (simp add: seed_db_def)
  ultimately show ?thesis using s usr by simp
qed

subsection \<open>Session selection\<close>

lemma optionsMap_fold:
  "fold (\<lambda>opt m. m(o_questionId opt \<mapsto>
                  (case m (o_questionId opt) of None \<Rightarrow> [] | Some arr \<Rightarrow> arr)
                  @ [\<lparr>ov_label = o_label opt, ov_optionText = o_optionText opt\<rparr>]))
        opts m k
   = (if filter (\<lambda>opt. o_questionId opt = k) opts = [] then m k
      else Some ((case m k of None \<Rightarrow> [] | Some arr \<Rightarrow> arr)
                 @ map (\<lambda>opt. \<lparr>ov_label = o_label opt, ov_optionText = o_optionText opt\<rparr>)
                       (filter (\<lambda>opt. o_questionId opt = k) opts)))"
  by (induction opts arbitrary: m) (auto split: option.splits)

lemma optionsMap_get:
  "(case optionsMap allOptions k of None \<Rightarrow> [] | Some arr \<Rightarrow> arr)
   = map (\<lambda>opt. \<lparr>ov_label = o_label opt, ov_optionText = o_optionText opt\<rparr>)
         (filter (\<lambda>opt. o_questionId opt = k) allOptions)"
  unfolding optionsMap_def optionsMap_fold by simp

lemma getQuestions_questions:
  "qr_questions (getQuestions sort_random db)
   = map (\<lambda>q. \<lparr>qv_id = q_id q, qv_questionText = q_questionText q, qv_imageUrl = q_imageUrl q,
                qv_options = map (\<lambda>opt. \<lparr>ov_label = o_label opt, ov_optionText = o_optionText opt\<rparr>)
                               (filter (\<lambda>opt. o_questionId opt = q_id q) (questionOptions db))\<rparr>)
         (take 20 (sort_random (questions db)))"
  by (simp add: getQuestions_def Let_def optionsMap_get)

lemma optionsMap_ignores_isCorrect:
  "optionsMap (map (\<lambda>opt. opt\<lparr>o_isCorrect := f opt\<rparr>) allOptions) = optionsMap allOptions"
proof -
  have "fold (\<lambda>opt m. m(o_questionId opt \<mapsto>
                  (case m (o_questionId opt) of None \<Rightarrow> [] | Some arr \<Rightarrow> arr)
                  @ [\<lparr>ov_label = o_label opt, ov_optionText = o_optionText opt\<rparr>]))
          (map (\<lambda>opt. opt\<lparr>o_isCorrect := f opt\<rparr>) opts) m
        = fold (\<lambda>opt m. m(o_questionId opt \<mapsto>
                  (case m (o_questionId opt) of None \<Rightarrow> [] | Some arr \<Rightarrow> arr)
                  @ [\<lparr>ov_label = o_label opt, ov_optionText = o_optionText opt\<rparr>]))
          opts m" for opts m
    by (induction opts arbitrary: m) simp_all
  then show ?thesis by (simp add: optionsMap_def)
qed

text \<open>
  Claim C4. For every question pool (the ids being the primary key of the table) and
  every outcome of the random sort, \<^verbatim>\<open>GET /test/questions\<close> returns questions with
  pairwise distinct ids, \<open>min 20 poolSize\<close> of them, all taken from the pool; a pool of
  at most 20 questions is returned whole. Every attached option consists of the label
  and the text of an option row of that question and of nothing else: whatever the
  \<^verbatim>\<open>isCorrect\<close> flags of the store are, the response is the same.
\<close>

theorem getQuestions_selection:
  assumes "\<forall>xs. mset (sort_random xs) = mset xs"
    and "distinct (map q_id (questions db))"
  shows "distinct (map qv_id (qr_questions (getQuestions sort_random db)))
     \<and> length (qr_questions (getQuestions sort_random db)) = min 20 (length (questions db))
     \<and> set (map qv_id (qr_questions (getQuestions sort_random db))) \<subseteq> set (map q_id (questions db))
     \<and> (length (questions db) \<le> 20 \<longrightarrow>
          mset (map (\<lambda>v. \<lparr>q_id = qv_id v, q_questionText = qv_questionText v,
                           q_imageUrl = qv_imageUrl v\<rparr>)
                    (qr_questions (getQuestions sort_random db)))
          = mset (questions db))
     \<and> (\<forall>v \<in> set (qr_questions (getQuestions sort_random db)).
          qv_options v = map (\<lambda>opt. \<lparr>ov_label = o_label opt, ov_optionText = o_optionText opt\<rparr>)
                            (filter (\<lambda>opt. o_questionId opt = qv_id v) (questionOptions db)))
     \<and> (\<forall>f. getQuestions sort_random
                (db\<lparr>questionOptions := map (\<lambda>opt. opt\<lparr>o_isCorrect := f opt\<rparr>) (questionOptions db)\<rparr>)
              = getQuestions sort_random db)"
proof -
  let ?sh = "sort_random (questions db)"
  have m: "mset ?sh = mset (questions db)" using assms(1) by simp
  have len: "length ?sh = length (questions db)" using m by (metis size_mset)
  have "mset (map q_id ?sh) = mset (map q_id (questions db))" using m by (metis mset_map)
  then have d: "distinct (map q_id ?sh)" using assms(2) by (metis mset_eq_imp_distinct_iff)
  have s: "set ?sh = set (questions db)" using m by (metis set_mset_mset)
  have ids: "map qv_id (qr_questions (getQuestions sort_random db)) = take 20 (map q_id ?sh)"
    by (simp add: getQuestions_questions o_def take_map)
  have 1: "distinct (map qv_id (qr_questions (getQuestions sort_random db)))"
    unfolding ids using d by (rule distinct_take)
  have 2: "length (qr_questions (getQuestions sort_random db)) = min 20 (length (questions db))"
    by (simp add: getQuestions_questions len min.commute)
  have 3: "set (map qv_id (qr_questions (getQuestions sort_random db))) \<subseteq> set (map q_id (questions db))"
    unfolding ids using s set_take_subset [of 20 "map q_id ?sh"] by auto
  have 4: "mset (map (\<lambda>v. \<lparr>q_id = qv_id v, q_questionText = qv_questionText v,
                           q_imageUrl = qv_imageUrl v\<rparr>)
                    (qr_questions (getQuestions sort_random db)))
          = mset (questions db)" if "length (questions db) \<le> 20"
  proof -
    have "take 20 ?sh = ?sh" using that len by simp
    moreover have "(\<lambda>x :: question_row. \<lparr>q_id = q_id x, q_questionText = q_questionText x,
                       q_imageUrl = q_imageUrl x\<rparr>) = (\<lambda>x. x)"
      by (rule ext) simp
    ultimately show ?thesis by (simp add: getQuestions_questions o_def m)
  qed
  have 5: "\<forall>v \<in> set (qr_questions (getQuestions sort_random db)).
          qv_options v = map (\<lambda>opt. \<lparr>ov_label = o_label opt, ov_optionText = o_optionText opt\<rparr>)
                            (filter (\<lambda>opt. o_questionId opt = qv_id v) (questionOptions db))"
    by (auto simp: getQuestions_questions)
  have 6: "getQuestions sort_random
                (db\<lparr>questionOptions := map (\<lambda>opt. opt\<lparr>o_isCorrect := f opt\<rparr>) (questionOptions db)\<rparr>)
              = getQuestions sort_random db" for f
    by (simp add: getQuestions_def optionsMap_ignores_isCorrect)
  show ?thesis using 1 2 3 4 5 6 by blast
qed

theorem getQuestions_selection_witness:
  "(\<forall>xs :: question_row list. mset (rev xs) = mset xs)
   \<and> distinct (map q_id (questions seed_db))
   \<and> map qv_id (qr_questions (getQuestions rev seed_db)) = [2, 1]
   \<and> length (qr_questions (getQuestions rev seed_db)) = min 20 (length (questions seed_db))
   \<and> map qv_options (qr_questions (getQuestions rev seed_db))
       = [[\<lparr>ov_label = Some ''A'', ov_optionText = Some ''40''\<rparr>,
           \<lparr>ov_label = Some ''B'', ov_optionText = Some ''42''\<rparr>,
           \<lparr>ov_label = Some ''C'', ov_optionText = Some ''38''\<rparr>,
           \<lparr>ov_label = Some ''D'', ov_optionText = Some ''44''\<rparr>],
          [\<lparr>ov_label = Some ''A'', ov_optionText = Some ''96''\<rparr>,
           \<lparr>ov_label = Some ''B'', ov_optionText = Some ''32''\<rparr>,
           \<lparr>ov_label = Some ''C'', ov_optionText = Some ''12''\<rparr>,
           \<lparr>ov_label = Some ''D'', ov_optionText = Some ''108''\<rparr>]]"
proof -
  have h1: "\<forall>xs :: question_row list. mset (rev xs) = mset xs" by simp
  have h2: "distinct (map q_id (questions seed_db))" by (simp add: seed_db_def)
  from getQuestions_selection [OF h1 h2] h1 h2 show ?thesis
    by (simp add: getQuestions_questions seed_db_def)
qed

subsection \<open>Score bounds and the IQ mapping\<close>

lemma iqScore_at_boundaries:
  "list_all (\<lambda>c. iqScore (fmul (rnd (c / 100)) 100) = spec_iqScore c) boundary_percentages"
  by (simp add: boundary_percentages_def dbl_eval iqScore_def spec_iqScore_def)

lemma iqScore_of_twenty:
  "list_all (\<lambda>s. iqScore (percentage s 20) = spec_iqScore (spec_percentage s 20))
     [0, 1, 2, 3, 4, 5, 6, 7, 8, 9, 10, 11, 12, 13, 14, 15, 16, 17, 18, 19, 20]"
  by (simp add: dbl_eval iqScore_def spec_iqScore_def percentage_def spec_percentage_def)

lemma percentage_of_spec_percentage:
  assumes "0 < t" and "spec_percentage s t = c"
  shows "percentage s t = fmul (rnd (c / 100)) 100"
proof -
  have "of_nat s / (of_nat t :: rat) = c / 100"
    using assms by (auto simp: spec_percentage_def)
  then show ?thesis unfolding percentage_def fdiv_def by (simp only:)
qed

lemma iqScore_boundary:
  assumes "0 < t" and "spec_percentage s t \<in> set boundary_percentages"
  shows "iqScore (percentage s t) = spec_iqScore (spec_percentage s t)"
proof -
  have "iqScore (fmul (rnd (spec_percentage s t / 100)) 100) = spec_iqScore (spec_percentage s t)"
    using iqScore_at_boundaries assms(2) by (simp only: list_all_iff)
  then show ?thesis
    using percentage_of_spec_percentage [OF assms(1) refl] by simp
qed

lemma iqScore_twenty:
  assumes "s \<le> 20"
  shows "iqScore (percentage s 20) = spec_iqScore (spec_percentage s 20)"
proof -
  have "s \<in> set [0, 1, 2, 3, 4, 5, 6, 7, 8, 9, 10, 11, 12, 13, 14, 15, 16, 17, 18, 19, 20]"
    using assms by (simp) arith
  then show ?thesis using iqScore_of_twenty by (simp only: list_all_iff)
qed



lemma example_one_of_two:
  "fmul (fdiv 1 2) 100 = 50" "iqScore 50 = 100" "Math_round 50 = 50"
  by (simp_all add: iqScore_def Math_round_def dbl_eval)

lemma example_one_of_three:
  "iqScore (fmul (fdiv 1 3) 100) = 89" "Math_round (fmul (fdiv 1 3) 100) = 33"
  by (simp_all add: iqScore_def Math_round_def dbl_eval)

text \<open>
  Claim C3, as the handler has it. For every accepted submission the score lies between
  0 and \<open>totalQuestions\<close>. The IQ score is the five-band mapping evaluated in
  double-precision arithmetic on \<^verbatim>\<open>(correctCount / totalQuestions) * 100\<close>; it equals the
  mapping of \<open>100 * score / totalQuestions\<close> over the rationals at each of the boundary
  percentages 0, 24.999, 25, 49.999, 50, 74.999, 75, 89.999, 90 and 100, and for every
  score of a submission of 20 answers. The returned percentage is \<^verbatim>\<open>Math.round\<close> of the
  double-precision percentage.
\<close>

theorem submit_score_and_iqScore:
  assumes "submit coerce db userId answers = (db', Inr r)"
  shows "0 \<le> sr_score r \<and> sr_score r \<le> sr_totalQuestions r
     \<and> sr_iqScore r = iqScore (percentage (sr_score r) (sr_totalQuestions r))
     \<and> (spec_percentage (sr_score r) (sr_totalQuestions r) \<in> set boundary_percentages
          \<longrightarrow> sr_iqScore r = spec_iqScore (spec_percentage (sr_score r) (sr_totalQuestions r)))
     \<and> (sr_totalQuestions r = 20
          \<longrightarrow> sr_iqScore r = spec_iqScore (spec_percentage (sr_score r) (sr_totalQuestions r)))
     \<and> sr_percentage r = Math_round (percentage (sr_score r) (sr_totalQuestions r))"
proof -
  from submit_InrD [OF assms] obtain as where ne: "as \<noteq> []"
    and t: "sr_totalQuestions r = length as"
    and s: "sr_score r = length (filter (\<lambda>a. selectedAnswer a = map_get (correctMap (questionOptions db)) (questionId a)) as)"
    and i: "sr_iqScore r = iqScore (percentage (sr_score r) (length as))"
    and p: "sr_percentage r = Math_round (percentage (sr_score r) (length as))"
    by blast
  have le: "sr_score r \<le> sr_totalQuestions r" unfolding s t by (rule length_filter_le)
  have pos: "0 < sr_totalQuestions r" using ne t by simp
  have b: "sr_iqScore r = spec_iqScore (spec_percentage (sr_score r) (sr_totalQuestions r))"
    if "spec_percentage (sr_score r) (sr_totalQuestions r) \<in> set boundary_percentages"
    using iqScore_boundary [OF pos that] i t by simp
  have c: "sr_iqScore r = spec_iqScore (spec_percentage (sr_score r) (sr_totalQuestions r))"
    if "sr_totalQuestions r = 20"
    using iqScore_twenty [of "sr_score r"] le i t that by simp
  show ?thesis using le i p t b c by simp
qed


theorem submit_score_and_iqScore_witness:
  "submit no_coercion seed_db 2 (Some [Entry (JNum 1) (JStr ''D''), Entry (JNum 2) (JStr ''A'')])
     = (seed_db\<lparr>testResults :=
                    [\<lparr>tr_id = 1, tr_userId = 2, tr_score = 1, tr_totalQuestions = 2,
                      tr_iqScore = 100\<rparr>],
                userAnswers :=
                    [\<lparr>ua_testResultId = 1, ua_questionId = JNum 1,
                      ua_selectedAnswer = JStr ''D'', ua_isCorrect = 1\<rparr>,
                     \<lparr>ua_testResultId = 1, ua_questionId = JNum 2,
                      ua_selectedAnswer = JStr ''A'', ua_isCorrect = 0\<rparr>]\<rparr>,
        Inr \<lparr>sr_id = 1, sr_score = 1, sr_totalQuestions = 2, sr_iqScore = 100,
              sr_percentage = 50\<rparr>)
   \<and> spec_percentage 1 2 \<in> set boundary_percentages
   \<and> spec_iqScore (spec_percentage 1 2) = 100
   \<and> (\<exists>db' r. submit no_coercion seed_db 2 (Some (replicate 20 (Entry (JNum 1) (JStr ''D'')))) = (db', Inr r)
          \<and> sr_score r = 20 \<and> sr_totalQuestions r = 20 \<and> sr_iqScore r = 150)"
proof -
  have h: "submit no_coercion seed_db 2 (Some [Entry (JNum 1) (JStr ''D''), Entry (JNum 2) (JStr ''A'')])
     = (seed_db\<lparr>testResults :=
                    [\<lparr>tr_id = 1, tr_userId = 2, tr_score = 1, tr_totalQuestions = 2,
                      tr_iqScore = 100\<rparr>],
                userAnswers :=
                    [\<lparr>ua_testResultId = 1, ua_questionId = JNum 1,
                      ua_selectedAnswer = JStr ''D'', ua_isCorrect = 1\<rparr>,
                     \<lparr>ua_testResultId = 1, ua_questionId = JNum 2,
                      ua_selectedAnswer = JStr ''A'', ua_isCorrect = 0\<rparr>]\<rparr>,
        Inr \<lparr>sr_id = 1, sr_score = 1, sr_totalQuestions = 2, sr_iqScore = 100,
              sr_percentage = 50\<rparr>)"
    by (simp add: submit_def accepts_question_id_def question_id_column_def seed_db_def correctMap_def label_value_def map_get_def
          score_answer_def strict_eq_def insertId_def percentage_def example_one_of_two)
  have b: "spec_percentage 1 2 \<in> set boundary_percentages"
    by (simp add: spec_percentage_def boundary_percentages_def)
  let ?as = "replicate 20 (Entry (JNum 1) (JStr ''D''))"
  have ne: "?as \<noteq> []" "NullEntry \<notin> set ?as" by simp_all
  have usr: "2 \<in> u_id ` set (users seed_db)" by (simp add: seed_db_def)
  have "accepts_question_id no_coercion seed_db (JNum (of_int 1))"
    unfolding accepts_integer_question_id by (simp add: seed_db_def)
  then have acc: "\<forall>a \<in> set ?as. accepts_question_id no_coercion seed_db (questionId a)" by simp
  have ok: "map_get (correctMap (questionOptions seed_db)) (JNum 1) = JStr ''D''"
    by (simp add: map_get_def correctMap_def seed_db_def label_value_def)
  from submit_accepted [OF ne usr acc] obtain db' r
    where s: "submit no_coercion seed_db 2 (Some ?as) = (db', Inr r)"
      and t: "sr_totalQuestions r = length ?as"
      and c: "sr_score r = length (filter (\<lambda>a. selectedAnswer a = map_get (correctMap (questionOptions seed_db)) (questionId a)) ?as)"
    by blast
  have t': "sr_totalQuestions r = 20" using t by simp
  have c': "sr_score r = 20" using c ok by simp
  have "sr_iqScore r = spec_iqScore (spec_percentage (sr_score r) (sr_totalQuestions r))"
    using submit_score_and_iqScore [OF s] t' by simp
  then have "sr_iqScore r = 150"
    using c' t' by (simp add: spec_iqScore_def spec_percentage_def)
  with s c' t' have twenty: "\<exists>db' r. submit no_coercion seed_db 2 (Some ?as) = (db', Inr r)
          \<and> sr_score r = 20 \<and> sr_totalQuestions r = 20 \<and> sr_iqScore r = 150"
    by blast
  from submit_score_and_iqScore [OF h] b h twenty show ?thesis by simp
qed

text \<open>
  The claim as worded equates the IQ score with the mapping of
  \<open>100 * score / totalQuestions\<close> for every submission. With one correct answer out of
  three the double-precision percentage is just below \<open>100 / 3\<close>, and the handler
  returns 89 where the mapping gives 90. With 23 correct out of 40 the double-precision
  percentage is just below 57.5 and rounds to 57, not 58.
\<close>

theorem submit_iqScore_differs_from_mapping:
  "snd (submit no_coercion seed_db 2 (Some [Entry (JNum 1) (JStr ''D''), Entry (JNum 2) (JStr ''A''),
                                 Entry (JNum 2) (JStr ''C'')]))
     = Inr \<lparr>sr_id = 1, sr_score = 1, sr_totalQuestions = 3, sr_iqScore = 89,
             sr_percentage = 33\<rparr>
   \<and> spec_iqScore (spec_percentage 1 3) = 90
   \<and> Math_round (percentage 23 40) = 57 \<and> Math_round (spec_percentage 23 40) = 58"
proof -
  have "snd (submit no_coercion seed_db 2 (Some [Entry (JNum 1) (JStr ''D''), Entry (JNum 2) (JStr ''A''),
                                 Entry (JNum 2) (JStr ''C'')]))
     = Inr \<lparr>sr_id = 1, sr_score = 1, sr_totalQuestions = 3, sr_iqScore = 89,
             sr_percentage = 33\<rparr>"
    by (simp add: submit_def accepts_question_id_def question_id_column_def seed_db_def correctMap_def label_value_def map_get_def
          score_answer_def strict_eq_def insertId_def percentage_def example_one_of_three)
  moreover have "spec_iqScore (spec_percentage 1 3) = 90"
    by (simp add: spec_iqScore_def spec_percentage_def floor_rat_numeral)
  moreover have "Math_round (percentage 23 40) = 57"
    by (simp add: Math_round_def percentage_def dbl_eval)
  moreover have "Math_round (spec_percentage 23 40) = 58"
    by (simp add: Math_round_def spec_percentage_def floor_rat_numeral)
  ultimately show ?thesis by (simp only:)
qed

section \<open>Properties of the ledger handlers\<close>

subsection \<open>Reading and writing rows\<close>

lemma filter_case_find:
  "(case filter P xs of [] \<Rightarrow> a | x # _ \<Rightarrow> f x) = (case find P xs of None \<Rightarrow> a | Some x \<Rightarrow> f x)"
  by (induction xs) auto

lemma balanceOf_find:
  "balanceOf db userId =
     (case find (\<lambda>u. u_id u = userId) (users db) of
        None \<Rightarrow> Inl NotFoundError | Some u \<Rightarrow> Inr (u_balance u))"
  unfolding balanceOf_def by (rule filter_case_find)

lemma update_balance_simps [simp]:
  "transactions (update_balance k f db) = transactions db"
  "testResults (update_balance k f db) = testResults db"
  "userAnswers (update_balance k f db) = userAnswers db"
  by (simp_all add: update_balance_def)

lemma update_status_simps [simp]:
  "users (update_status k s db) = users db"
  by (simp add: update_status_def)

lemma find_update_balance:
  "find (\<lambda>u. u_id u = k) (users (update_balance k' f db))
     = map_option (\<lambda>u. if k = k' then u\<lparr>u_balance := f (u_balance u)\<rparr> else u)
         (find (\<lambda>u. u_id u = k) (users db))"
proof -
  have "find (\<lambda>u. u_id u = k) (map (\<lambda>u. if u_id u = k' then u\<lparr>u_balance := f (u_balance u)\<rparr> else u) us)
     = map_option (\<lambda>u. if k = k' then u\<lparr>u_balance := f (u_balance u)\<rparr> else u)
         (find (\<lambda>u. u_id u = k) us)" for us
    by (induction us) auto
  then show ?thesis by (simp add: update_balance_def)
qed

lemma balanceOf_update_balance:
  "balanceOf (update_balance k' f db) k =
     (case balanceOf db k of Inl e \<Rightarrow> Inl e | Inr b \<Rightarrow> Inr (if k = k' then f b else b))"
  by (simp add: balanceOf_find find_update_balance split: option.splits)

lemma balanceOf_update_status [simp]:
  "balanceOf (update_status k s db) userId = balanceOf db userId"
  by (simp add: balanceOf_def)

lemma find_update_status:
  "find (\<lambda>t. tx_id t = k) (transactions (update_status k s db))
     = map_option (\<lambda>t. t\<lparr>tx_status := s\<rparr>) (find (\<lambda>t. tx_id t = k) (transactions db))"
proof -
  have "find (\<lambda>t. tx_id t = k) (map (\<lambda>t. if tx_id t = k then t\<lparr>tx_status := s\<rparr> else t) ts)
     = map_option (\<lambda>t. t\<lparr>tx_status := s\<rparr>) (find (\<lambda>t. tx_id t = k) ts)" for ts
    by (induction ts) auto
  then show ?thesis by (simp add: update_status_def)
qed

subsection \<open>The outcomes of \<open>adminSettle\<close>\<close>

lemma adminSettle_find:
  "adminSettle db role txId status =
     (if role \<noteq> ''admin'' then (db, Inl ForbiddenError)
      else if status \<noteq> ''completed'' \<and> status \<noteq> ''failed'' then (db, Inl ValidationError)
      else
        (case find (\<lambda>t. tx_id t = txId) (transactions db) of
           None \<Rightarrow> (db, Inl NotFoundError)
         | Some t \<Rightarrow>
             if tx_status t \<noteq> ''pending'' then (db, Inl InvalidStateError)
             else if status = ''completed'' then
               (case find (\<lambda>u. u_id u = tx_senderId t) (users db) of
                  None \<Rightarrow> (db, Inl InternalError)
                | Some sender \<Rightarrow>
                    if parseFloat (u_balance sender) < parseFloat (tx_amount t)
                    then (db, Inl InsufficientFundsError)
                    else (update_status txId status
                            (update_balance (tx_receiverId t) (\<lambda>b. b + tx_amount t)
                               (update_balance (tx_senderId t) (\<lambda>b. b - tx_amount t) db)),
                          Inr Confirmed))
             else (update_status txId status db, Inr Cancelled)))"
  unfolding adminSettle_def Let_def
  by (simp add: filter_case_find [symmetric] split: list.splits)

lemma adminSettle_completed_effect:
  assumes "adminSettle db role txId ''completed'' = (db', Inr m)"
    and "find (\<lambda>t. tx_id t = txId) (transactions db) = Some t"
  shows "db' = update_status txId ''completed''
                 (update_balance (tx_receiverId t) (\<lambda>b. b + tx_amount t)
                    (update_balance (tx_senderId t) (\<lambda>b. b - tx_amount t) db))"
    and "m = Confirmed" and "tx_status t = ''pending''" and "role = ''admin''"
    and "find (\<lambda>t. tx_id t = txId) (transactions db') = Some (t\<lparr>tx_status := ''completed''\<rparr>)"
proof -
  show 1: "db' = update_status txId ''completed''
                 (update_balance (tx_receiverId t) (\<lambda>b. b + tx_amount t)
                    (update_balance (tx_senderId t) (\<lambda>b. b - tx_amount t) db))"
    using assms by (auto simp: adminSettle_find split: if_splits option.splits)
  show "m = Confirmed" "tx_status t = ''pending''" "role = ''admin''"
    using assms by (auto simp: adminSettle_find split: if_splits option.splits)
  show "find (\<lambda>t. tx_id t = txId) (transactions db') = Some (t\<lparr>tx_status := ''completed''\<rparr>)"
    unfolding 1 using assms(2) by (simp add: find_update_status)
qed

lemma adminSettle_failed_effect:
  assumes "adminSettle db role txId ''failed'' = (db', Inr m)"
    and "find (\<lambda>t. tx_id t = txId) (transactions db) = Some t"
  shows "db' = update_status txId ''failed'' db"
    and "m = Cancelled" and "tx_status t = ''pending''" and "role = ''admin''"
    and "find (\<lambda>t. tx_id t = txId) (transactions db') = Some (t\<lparr>tx_status := ''failed''\<rparr>)"
proof -
  show 1: "db' = update_status txId ''failed'' db"
    using assms by (auto simp: adminSettle_find split: if_splits option.splits)
  show "m = Cancelled" "tx_status t = ''pending''" "role = ''admin''"
    using assms by (auto simp: adminSettle_find split: if_splits option.splits)
  show "find (\<lambda>t. tx_id t = txId) (transactions db') = Some (t\<lparr>tx_status := ''failed''\<rparr>)"
    unfolding 1 using assms(2) by (simp add: find_update_status)
qed


lemma parseFloat_examples:
  "parseFloat 50 = 50" "parseFloat 30 = 30" "parseFloat 20 = 20" "parseFloat 0 = 0"
  "parseFloat 100 = 100" "parseFloat 1000 = 1000"
  by (simp_all add: dbl_eval)

subsection \<open>Requesting a transfer\<close>



lemma requestTransfer_find:
  "requestTransfer db senderId receiverId amount =
     (case (receiverId, amount) of
        (Some rid, Some a) \<Rightarrow>
          if \<not> parseFloat (1 / 100) \<le> parseFloat a then (db, Inl ValidationError)
          else if senderId = rid then (db, Inl ValidationError)
          else if rid \<notin> u_id ` set (users db) then (db, Inl NotFoundError)
          else
            (case balanceOf db senderId of
               Inl e \<Rightarrow> (db, Inl InternalError)
             | Inr b \<Rightarrow>
                 if parseFloat b < parseFloat a then (db, Inl InsufficientFundsError)
                 else (db\<lparr>transactions := transactions db @
                            [\<lparr>tx_id = insertId (map tx_id (transactions db)),
                              tx_senderId = senderId, tx_receiverId = rid,
                              tx_amount = store_decimal a, tx_status = ''pending''\<rparr>]\<rparr>,
                       Inr (insertId (map tx_id (transactions db)))))
      | _ \<Rightarrow> (db, Inl ValidationError))"
proof -
  have e: "(filter (\<lambda>u. u_id u = rid) (users db) = []) = (rid \<notin> u_id ` set (users db))" for rid
    by (auto simp: filter_empty_conv)
  show ?thesis
    unfolding requestTransfer_def Let_def e balanceOf_def
    by (auto split: option.splits list.splits)
qed

lemma positive_decimal_is_valid_amount:
  assumes "decimal_10_2 a" and "0 < a"
  shows "parseFloat (1 / 100) \<le> parseFloat a"
proof -
  have z: "decimal_10_2 0" and h: "decimal_10_2 (1 / 100)" by (simp_all add: decimal_10_2_def)
  have "1 / 100 \<le> a" using decimal_10_2_gap [OF z assms(1) assms(2)] by simp
  then have "\<not> a < 1 / 100" by simp
  then have "\<not> parseFloat a < parseFloat (1 / 100)"
    using parseFloat_less_decimal [OF assms(1) h] by simp
  then show ?thesis by simp
qed

text \<open>
  Claim C6, as the handler has it. A request whose amount is at most 0 always fails with
  ValidationError, and so does one whose receiver is the sender; every amount of at
  least 0.01 passes the validation of the amount. A request that passes both validations
  fails with NotFoundError when no user has the receiver's id. When the receiver exists,
  the request fails with InsufficientFundsError exactly when the sender's balance, read
  as a double, is below the amount read as a double. That is so whenever the amount \<open>a\<close>
  exceeds the balance \<open>b\<close> by more than \<open>(\<bar>a\<bar> + \<bar>b\<bar>) / 2 ^ 53\<close>: whenever it exceeds a
  balance of a \<^verbatim>\<open>DECIMAL(10,2)\<close> column by 0.01 or more, and whenever an amount written
  with at most two decimal places exceeds such a balance. An amount that is at most the
  balance is never refused: the pending row is created. A request that succeeds appends
  exactly one transaction row, with status \<^verbatim>\<open>pending\<close>, and leaves every user row as it
  was.
\<close>

theorem requestTransfer_outcomes:
  "(\<forall>a. amount = Some a \<and> a \<le> 0 \<longrightarrow>
       requestTransfer db senderId receiverId amount = (db, Inl ValidationError))
   \<and> (receiverId = Some senderId \<longrightarrow>
       requestTransfer db senderId receiverId amount = (db, Inl ValidationError))
   \<and> (\<forall>a. 1 / 100 \<le> a \<longrightarrow> parseFloat (1 / 100) \<le> parseFloat a)
   \<and> (\<forall>rid a. receiverId = Some rid \<and> amount = Some a \<and> parseFloat (1 / 100) \<le> parseFloat a
          \<and> rid \<noteq> senderId \<and> rid \<notin> u_id ` set (users db) \<longrightarrow>
       requestTransfer db senderId receiverId amount = (db, Inl NotFoundError))
   \<and> (\<forall>rid a b. receiverId = Some rid \<and> amount = Some a \<and> parseFloat (1 / 100) \<le> parseFloat a
          \<and> rid \<noteq> senderId \<and> rid \<in> u_id ` set (users db)
          \<and> balanceOf db senderId = Inr b \<longrightarrow>
         ((requestTransfer db senderId receiverId amount = (db, Inl InsufficientFundsError))
            = (parseFloat b < parseFloat a))
       \<and> ((\<bar>a\<bar> + \<bar>b\<bar>) / 2 ^ 53 < a - b \<longrightarrow>
            requestTransfer db senderId receiverId amount = (db, Inl InsufficientFundsError))
       \<and> (\<bar>b\<bar> < 100000000 \<and> b + 1 / 100 \<le> a \<longrightarrow>
            requestTransfer db senderId receiverId amount = (db, Inl InsufficientFundsError))
       \<and> (decimal_10_2 b \<and> of_int \<lfloor>a * 100\<rfloor> = a * 100 \<and> b < a \<longrightarrow>
            requestTransfer db senderId receiverId amount = (db, Inl InsufficientFundsError))
       \<and> (a \<le> b \<longrightarrow>
            requestTransfer db senderId receiverId amount =
              (db\<lparr>transactions := transactions db @
                     [\<lparr>tx_id = insertId (map tx_id (transactions db)),
                       tx_senderId = senderId, tx_receiverId = rid,
                       tx_amount = store_decimal a, tx_status = ''pending''\<rparr>]\<rparr>,
               Inr (insertId (map tx_id (transactions db))))))
   \<and> (\<forall>db' transactionId. requestTransfer db senderId receiverId amount = (db', Inr transactionId) \<longrightarrow>
         users db' = users db
       \<and> (\<exists>t. transactions db' = transactions db @ [t] \<and> tx_id t = transactionId
              \<and> tx_status t = ''pending'' \<and> tx_senderId t = senderId
              \<and> receiverId = Some (tx_receiverId t)))"
proof (intro conjI allI impI)
  fix a assume a: "amount = Some a \<and> a \<le> 0"
  have "parseFloat a \<le> 0" using a by (simp add: parseFloat_nonpos)
  moreover have "0 < parseFloat (1 / 100)" by (simp add: parseFloat_hundredth)
  ultimately have "\<not> parseFloat (1 / 100) \<le> parseFloat a" by simp
  then show "requestTransfer db senderId receiverId amount = (db, Inl ValidationError)"
    using a by (simp add: requestTransfer_find split: option.splits)
next
  assume "receiverId = Some senderId"
  then show "requestTransfer db senderId receiverId amount = (db, Inl ValidationError)"
    by (simp add: requestTransfer_find split: option.splits)
next
  fix a :: rat assume "1 / 100 \<le> a"
  then show "parseFloat (1 / 100) \<le> parseFloat a" by (rule parseFloat_mono)
next
  fix rid a
  assume "receiverId = Some rid \<and> amount = Some a \<and> parseFloat (1 / 100) \<le> parseFloat a
          \<and> rid \<noteq> senderId \<and> rid \<notin> u_id ` set (users db)"
  then show "requestTransfer db senderId receiverId amount = (db, Inl NotFoundError)"
    by (simp add: requestTransfer_find)
next
  fix rid a b
  assume h: "receiverId = Some rid \<and> amount = Some a \<and> parseFloat (1 / 100) \<le> parseFloat a
          \<and> rid \<noteq> senderId \<and> rid \<in> u_id ` set (users db)
          \<and> balanceOf db senderId = Inr b"
  have refused: "requestTransfer db senderId receiverId amount = (db, Inl InsufficientFundsError)"
    if "parseFloat b < parseFloat a"
    using h that by (simp add: requestTransfer_find)
  have accepted: "requestTransfer db senderId receiverId amount =
              (db\<lparr>transactions := transactions db @
                     [\<lparr>tx_id = insertId (map tx_id (transactions db)),
                       tx_senderId = senderId, tx_receiverId = rid,
                       tx_amount = store_decimal a, tx_status = ''pending''\<rparr>]\<rparr>,
               Inr (insertId (map tx_id (transactions db))))"
    if "\<not> parseFloat b < parseFloat a"
    using h that by (simp add: requestTransfer_find)
  show "(requestTransfer db senderId receiverId amount = (db, Inl InsufficientFundsError))
            = (parseFloat b < parseFloat a)"
  proof (cases "parseFloat b < parseFloat a")
    case True
    then show ?thesis using refused by simp
  next
    case False
    then show ?thesis using accepted by simp
  qed
  show "requestTransfer db senderId receiverId amount = (db, Inl InsufficientFundsError)"
    if "(\<bar>a\<bar> + \<bar>b\<bar>) / 2 ^ 53 < a - b"
    using that by (intro refused parseFloat_gap)
  show "requestTransfer db senderId receiverId amount = (db, Inl InsufficientFundsError)"
    if "\<bar>b\<bar> < 100000000 \<and> b + 1 / 100 \<le> a"
    using that by (intro refused parseFloat_hundredth_above) simp_all
  show "requestTransfer db senderId receiverId amount = (db, Inl InsufficientFundsError)"
    if t: "decimal_10_2 b \<and> of_int \<lfloor>a * 100\<rfloor> = a * 100 \<and> b < a"
  proof -
    have "b + 1 / 100 \<le> a" using t hundredths_gap [of b a] by (simp add: decimal_10_2_def)
    moreover have "\<bar>b\<bar> < 100000000" using t by (simp add: decimal_10_2_def)
    ultimately show ?thesis by (intro refused parseFloat_hundredth_above)
  qed
  show "requestTransfer db senderId receiverId amount =
              (db\<lparr>transactions := transactions db @
                     [\<lparr>tx_id = insertId (map tx_id (transactions db)),
                       tx_senderId = senderId, tx_receiverId = rid,
                       tx_amount = store_decimal a, tx_status = ''pending''\<rparr>]\<rparr>,
               Inr (insertId (map tx_id (transactions db))))"
    if "a \<le> b"
  proof -
    have "parseFloat a \<le> parseFloat b" using that by (rule parseFloat_mono)
    then show ?thesis by (intro accepted) simp
  qed
next
  fix db' transactionId
  assume r: "requestTransfer db senderId receiverId amount = (db', Inr transactionId)"
  then show "users db' = users db"
    by (auto simp: requestTransfer_find split: option.splits sum.splits if_splits)
  from r show "\<exists>t. transactions db' = transactions db @ [t] \<and> tx_id t = transactionId
              \<and> tx_status t = ''pending'' \<and> tx_senderId t = senderId
              \<and> receiverId = Some (tx_receiverId t)"
    by (auto simp: requestTransfer_find split: option.splits sum.splits if_splits)
qed

lemma ledger_db_transfer:
  "requestTransfer ledger_db 2 (Some 3) (Some 20) =
     (ledger_db\<lparr>transactions := transactions ledger_db @
         [\<lparr>tx_id = 2, tx_senderId = 2, tx_receiverId = 3, tx_amount = 20, tx_status = ''pending''\<rparr>]\<rparr>,
      Inr 2)"
  by (simp add: requestTransfer_def ledger_db_def insertId_def store_decimal_def
        parseFloat_examples parseFloat_hundredth floor_rat_numeral)

theorem requestTransfer_outcomes_witness:
  "requestTransfer ledger_db 2 (Some 3) (Some 0) = (ledger_db, Inl ValidationError)
   \<and> requestTransfer ledger_db 2 (Some 2) (Some 20) = (ledger_db, Inl ValidationError)
   \<and> parseFloat (1 / 100) \<le> parseFloat 20
   \<and> requestTransfer ledger_db 2 (Some 9) (Some 20) = (ledger_db, Inl NotFoundError)
   \<and> balanceOf ledger_db 2 = Inr 50
   \<and> requestTransfer ledger_db 2 (Some 3) (Some 60) = (ledger_db, Inl InsufficientFundsError)
   \<and> requestTransfer ledger_db 2 (Some 3) (Some (12501 / 250))
       = (ledger_db, Inl InsufficientFundsError)
   \<and> requestTransfer ledger_db 2 (Some 3) (Some 100000000)
       = (ledger_db, Inl InsufficientFundsError)
   \<and> requestTransfer ledger_db 2 (Some 3) (Some 20) =
       (ledger_db\<lparr>transactions := transactions ledger_db @
           [\<lparr>tx_id = 2, tx_senderId = 2, tx_receiverId = 3, tx_amount = 20,
             tx_status = ''pending''\<rparr>]\<rparr>,
        Inr 2)
   \<and> users (fst (requestTransfer ledger_db 2 (Some 3) (Some 20))) = users ledger_db
   \<and> map tx_status (transactions (fst (requestTransfer ledger_db 2 (Some 3) (Some 20))))
        = [''pending'', ''pending'']"
proof -
  have v: "parseFloat (1 / 100) \<le> parseFloat 20"
    using requestTransfer_outcomes [of "Some 20" ledger_db 2 "Some 3"] by simp
  have v': "parseFloat (1 / 100) \<le> parseFloat 60"
    "parseFloat (1 / 100) \<le> parseFloat (12501 / 250)"
    "parseFloat (1 / 100) \<le> parseFloat 100000000"
    by (rule parseFloat_mono, simp)+
  have b: "balanceOf ledger_db 2 = Inr 50" by (simp add: balanceOf_def ledger_db_def)
  have u: "(9::int) \<notin> u_id ` set (users ledger_db)" "(3::int) \<in> u_id ` set (users ledger_db)"
    by (simp_all add: ledger_db_def)
  have d: "decimal_10_2 50" by (simp add: decimal_10_2_def)
  have i: "insertId (map tx_id (transactions ledger_db)) = 2"
    by (simp add: insertId_def ledger_db_def)
  have sd: "store_decimal 20 = 20" by (simp add: store_decimal_def floor_rat_numeral)
  have 1: "requestTransfer ledger_db 2 (Some 3) (Some 0) = (ledger_db, Inl ValidationError)"
    using requestTransfer_outcomes [of "Some 0" ledger_db 2 "Some 3"] by simp
  have 2: "requestTransfer ledger_db 2 (Some 2) (Some 20) = (ledger_db, Inl ValidationError)"
    using requestTransfer_outcomes [of "Some 20" ledger_db 2 "Some 2"] by simp
  have 3: "requestTransfer ledger_db 2 (Some 9) (Some 20) = (ledger_db, Inl NotFoundError)"
    using requestTransfer_outcomes [of "Some 20" ledger_db 2 "Some 9"] v u by simp
  have 4: "requestTransfer ledger_db 2 (Some 3) (Some 60) = (ledger_db, Inl InsufficientFundsError)"
    using requestTransfer_outcomes [of "Some 60" ledger_db 2 "Some 3"] v' u b d by simp
  have 5: "requestTransfer ledger_db 2 (Some 3) (Some (12501 / 250))
             = (ledger_db, Inl InsufficientFundsError)"
  proof -
    have p: "Some (3::int) = Some 3 \<and> Some (12501 / 250 :: rat) = Some (12501 / 250)
          \<and> parseFloat (1 / 100) \<le> parseFloat (12501 / 250)
          \<and> (3::int) \<noteq> 2 \<and> 3 \<in> u_id ` set (users ledger_db)
          \<and> balanceOf ledger_db 2 = Inr 50"
      using v'(2) u(2) b by (simp only: simp_thms)
    have g: "(\<bar>12501 / 250\<bar> + \<bar>50\<bar>) / 2 ^ 53 < (12501 / 250 - 50 :: rat)" by simp
    from requestTransfer_outcomes [of "Some (12501 / 250)" ledger_db 2 "Some 3",
        THEN conjunct2, THEN conjunct2, THEN conjunct2, THEN conjunct2, THEN conjunct1,
        rule_format, of 3 "12501 / 250" 50, OF p, THEN conjunct2, THEN conjunct1,
        rule_format, OF g]
    show ?thesis .
  qed
  have 6: "requestTransfer ledger_db 2 (Some 3) (Some 100000000)
             = (ledger_db, Inl InsufficientFundsError)"
    using requestTransfer_outcomes [of "Some 100000000" ledger_db 2 "Some 3"] v' u b by simp
  have 7: "requestTransfer ledger_db 2 (Some 3) (Some 20) =
       (ledger_db\<lparr>transactions := transactions ledger_db @
           [\<lparr>tx_id = 2, tx_senderId = 2, tx_receiverId = 3, tx_amount = 20,
             tx_status = ''pending''\<rparr>]\<rparr>,
        Inr 2)"
  proof -
    have p: "Some (3::int) = Some 3 \<and> Some (20::rat) = Some 20
          \<and> parseFloat (1 / 100) \<le> parseFloat 20
          \<and> (3::int) \<noteq> 2 \<and> 3 \<in> u_id ` set (users ledger_db)
          \<and> balanceOf ledger_db 2 = Inr 50"
      using v u(2) b by (simp only: simp_thms)
    have g: "(20::rat) \<le> 50" by simp
    from requestTransfer_outcomes [of "Some 20" ledger_db 2 "Some 3",
        THEN conjunct2, THEN conjunct2, THEN conjunct2, THEN conjunct2, THEN conjunct1,
        rule_format, of 3 20 50, OF p, THEN conjunct2, THEN conjunct2, THEN conjunct2,
        THEN conjunct2, rule_format, OF g]
    show ?thesis by (simp only: i sd)
  qed
  have 8: "users (fst (requestTransfer ledger_db 2 (Some 3) (Some 20))) = users ledger_db"
    using requestTransfer_outcomes [of "Some 20" ledger_db 2 "Some 3",
        THEN conjunct2, THEN conjunct2, THEN conjunct2, THEN conjunct2, THEN conjunct2,
        rule_format, OF 7, THEN conjunct1]
    unfolding 7 by simp
  have 9: "map tx_status (transactions (fst (requestTransfer ledger_db 2 (Some 3) (Some 20))))
        = [''pending'', ''pending'']"
    unfolding 7 by (simp add: ledger_db_def)
  from 1 2 v 3 b 4 5 6 7 8 9 show ?thesis by (simp only: simp_thms)
qed

text \<open>
  The claim as worded lets every amount above the balance fail. The handler compares
  \<^verbatim>\<open>parseFloat(sender[0].balance) < parseFloat(amount)\<close> on doubles: a sender holding
  50.00 who asks for 50.00000000000000000001 is not refused, since both numbers are read
  as the double 50, and a pending transfer of 50.00 is created.
\<close>

lemma parseFloat_just_above_fifty:
  "parseFloat (5000000000000000000001 / 100000000000000000000) = 50"
  by (simp add: dbl_eval)

theorem requestTransfer_accepts_amount_above_balance:
  "balanceOf ledger_db 2 = Inr 50 \<and> (50::rat) < 5000000000000000000001 / 100000000000000000000
   \<and> requestTransfer ledger_db 2 (Some 3) (Some (5000000000000000000001 / 100000000000000000000)) =
       (ledger_db\<lparr>transactions := transactions ledger_db @
           [\<lparr>tx_id = 2, tx_senderId = 2, tx_receiverId = 3, tx_amount = 50, tx_status = ''pending''\<rparr>]\<rparr>,
        Inr 2)"
proof -
  have "requestTransfer ledger_db 2 (Some 3) (Some (5000000000000000000001 / 100000000000000000000)) =
       (ledger_db\<lparr>transactions := transactions ledger_db @
           [\<lparr>tx_id = 2, tx_senderId = 2, tx_receiverId = 3, tx_amount = 50, tx_status = ''pending''\<rparr>]\<rparr>,
        Inr 2)"
    by (simp add: requestTransfer_def ledger_db_def insertId_def store_decimal_def
        parseFloat_just_above_fifty parseFloat_examples parseFloat_hundredth floor_rat_numeral)
  moreover have "balanceOf ledger_db 2 = Inr 50" by (simp add: balanceOf_def ledger_db_def)
  ultimately show ?thesis by simp
qed

subsection \<open>Settlement moves the amount\<close>

text \<open>
  Claim C8. An administrator's \<^verbatim>\<open>completed\<close> settlement of a pending transaction of
  amount \<open>A\<close> whose sender holds at least \<open>A\<close> succeeds. After a successful \<^verbatim>\<open>completed\<close>
  settlement of a transaction between two different users, the transaction was pending,
  the sender's balance is its earlier value minus \<open>A\<close>, the receiver's balance is its
  earlier value plus \<open>A\<close>, the sum of the two balances is the same as before, and the
  transaction is \<^verbatim>\<open>completed\<close>. An administrator's \<^verbatim>\<open>failed\<close> settlement of a pending
  transaction succeeds; after a successful \<^verbatim>\<open>failed\<close> settlement the transaction is
  \<^verbatim>\<open>failed\<close> and no user row has changed.
\<close>

theorem adminSettle_moves_amount:
  assumes "find (\<lambda>t. tx_id t = txId) (transactions db) = Some t"
  shows "(tx_status t = ''pending'' \<and> balanceOf db (tx_senderId t) = Inr bs \<and> tx_amount t \<le> bs
            \<longrightarrow> (\<exists>db'. adminSettle db ''admin'' txId ''completed'' = (db', Inr Confirmed)))
       \<and> (adminSettle db role txId ''completed'' = (db', Inr m)
            \<and> tx_senderId t \<noteq> tx_receiverId t
            \<and> balanceOf db (tx_senderId t) = Inr bs \<and> balanceOf db (tx_receiverId t) = Inr br
            \<longrightarrow> tx_status t = ''pending'' \<and> m = Confirmed
              \<and> balanceOf db' (tx_senderId t) = Inr (bs - tx_amount t)
              \<and> balanceOf db' (tx_receiverId t) = Inr (br + tx_amount t)
              \<and> (bs - tx_amount t) + (br + tx_amount t) = bs + br
              \<and> find (\<lambda>t. tx_id t = txId) (transactions db')
                  = Some (t\<lparr>tx_status := ''completed''\<rparr>))
       \<and> (tx_status t = ''pending''
            \<longrightarrow> (\<exists>db'. adminSettle db ''admin'' txId ''failed'' = (db', Inr Cancelled)))
       \<and> (adminSettle db role txId ''failed'' = (db', Inr m)
            \<longrightarrow> tx_status t = ''pending'' \<and> m = Cancelled
              \<and> users db' = users db
              \<and> find (\<lambda>t. tx_id t = txId) (transactions db') = Some (t\<lparr>tx_status := ''failed''\<rparr>))"
proof (intro conjI impI)
  assume h: "tx_status t = ''pending'' \<and> balanceOf db (tx_senderId t) = Inr bs \<and> tx_amount t \<le> bs"
  then obtain s where s: "find (\<lambda>u. u_id u = tx_senderId t) (users db) = Some s"
    and b: "u_balance s = bs"
    by (auto simp: balanceOf_find split: option.splits)
  have "parseFloat (tx_amount t) \<le> parseFloat bs" using h by (intro parseFloat_mono) simp
  then have "\<not> parseFloat (u_balance s) < parseFloat (tx_amount t)" using b by simp
  then show "\<exists>db'. adminSettle db ''admin'' txId ''completed'' = (db', Inr Confirmed)"
    using assms h s by (simp add: adminSettle_find)
next
  assume c: "adminSettle db role txId ''completed'' = (db', Inr m)
            \<and> tx_senderId t \<noteq> tx_receiverId t
            \<and> balanceOf db (tx_senderId t) = Inr bs \<and> balanceOf db (tx_receiverId t) = Inr br"
  then have c1: "adminSettle db role txId ''completed'' = (db', Inr m)" by simp
  note e = adminSettle_completed_effect [OF c1 assms]
  show "tx_status t = ''pending''" by (rule e(3))
  show "m = Confirmed" by (rule e(2))
  show "balanceOf db' (tx_senderId t) = Inr (bs - tx_amount t)"
    unfolding e(1) using c by (simp add: balanceOf_update_balance)
  show "balanceOf db' (tx_receiverId t) = Inr (br + tx_amount t)"
    unfolding e(1) using c by (simp add: balanceOf_update_balance)
  show "(bs - tx_amount t) + (br + tx_amount t) = bs + br" by simp
  show "find (\<lambda>t. tx_id t = txId) (transactions db') = Some (t\<lparr>tx_status := ''completed''\<rparr>)"
    by (rule e(5))
next
  assume "tx_status t = ''pending''"
  then show "\<exists>db'. adminSettle db ''admin'' txId ''failed'' = (db', Inr Cancelled)"
    using assms by (simp add: adminSettle_find)
next
  assume f: "adminSettle db role txId ''failed'' = (db', Inr m)"
  note e = adminSettle_failed_effect [OF f assms]
  show "tx_status t = ''pending''" by (rule e(3))
  show "m = Cancelled" by (rule e(2))
  show "users db' = users db" unfolding e(1) by simp
  show "find (\<lambda>t. tx_id t = txId) (transactions db') = Some (t\<lparr>tx_status := ''failed''\<rparr>)"
    by (rule e(5))
qed

lemma ledger_db_settled:
  "adminSettle ledger_db ''admin'' 1 ''completed'' =
     (ledger_db\<lparr>users := [\<lparr>u_id = 1, u_username = ''admin'', u_role = ''admin'', u_balance = 1000\<rparr>,
                            \<lparr>u_id = 2, u_username = ''alice'', u_role = ''user'', u_balance = 20\<rparr>,
                            \<lparr>u_id = 3, u_username = ''bob'', u_role = ''user'', u_balance = 30\<rparr>],
                 transactions := [\<lparr>tx_id = 1, tx_senderId = 2, tx_receiverId = 3, tx_amount = 30,
                                   tx_status = ''completed''\<rparr>]\<rparr>,
      Inr Confirmed)"
  by (simp add: adminSettle_def ledger_db_def update_balance_def update_status_def
        parseFloat_examples)

lemma ledger_db_cancelled:
  "adminSettle ledger_db ''admin'' 1 ''failed'' =
     (ledger_db\<lparr>transactions := [\<lparr>tx_id = 1, tx_senderId = 2, tx_receiverId = 3, tx_amount = 30,
                                   tx_status = ''failed''\<rparr>]\<rparr>,
      Inr Cancelled)"
  by (simp add: adminSettle_def ledger_db_def update_status_def)

theorem adminSettle_moves_amount_witness:
  "balanceOf ledger_db 2 = Inr 50 \<and> balanceOf ledger_db 3 = Inr 0
   \<and> (\<exists>db'. adminSettle ledger_db ''admin'' 1 ''completed'' = (db', Inr Confirmed))
   \<and> balanceOf (fst (adminSettle ledger_db ''admin'' 1 ''completed'')) 2 = Inr 20
   \<and> balanceOf (fst (adminSettle ledger_db ''admin'' 1 ''completed'')) 3 = Inr 30
   \<and> map tx_status (transactions (fst (adminSettle ledger_db ''admin'' 1 ''completed''))) = [''completed'']
   \<and> (\<exists>db'. adminSettle ledger_db ''admin'' 1 ''failed'' = (db', Inr Cancelled))
   \<and> users (fst (adminSettle ledger_db ''admin'' 1 ''failed'')) = users ledger_db
   \<and> map tx_status (transactions (fst (adminSettle ledger_db ''admin'' 1 ''failed''))) = [''failed'']"
proof -
  let ?t = "\<lparr>tx_id = 1, tx_senderId = 2, tx_receiverId = 3, tx_amount = 30, tx_status = ''pending''\<rparr>"
  have h1: "find (\<lambda>t. tx_id t = 1) (transactions ledger_db) = Some ?t"
    by (simp add: ledger_db_def)
  have h3: "balanceOf ledger_db (tx_senderId ?t) = Inr 50" by (simp add: balanceOf_def ledger_db_def)
  have h4: "balanceOf ledger_db (tx_receiverId ?t) = Inr 0" by (simp add: balanceOf_def ledger_db_def)
  note t = adminSettle_moves_amount [OF h1, of 50 "''admin''"
            "fst (adminSettle ledger_db ''admin'' 1 ''completed'')" Confirmed 0]
  note t' = adminSettle_moves_amount [OF h1, of 50 "''admin''"
            "fst (adminSettle ledger_db ''admin'' 1 ''failed'')" Cancelled 0]
  have c0: "\<exists>db'. adminSettle ledger_db ''admin'' 1 ''completed'' = (db', Inr Confirmed)"
    using t h3 by simp
  have c: "balanceOf (fst (adminSettle ledger_db ''admin'' 1 ''completed'')) 2 = Inr 20
      \<and> balanceOf (fst (adminSettle ledger_db ''admin'' 1 ''completed'')) 3 = Inr 30
      \<and> map tx_status (transactions (fst (adminSettle ledger_db ''admin'' 1 ''completed''))) = [''completed'']"
    using t h3 h4 ledger_db_settled by simp
  have f0: "\<exists>db'. adminSettle ledger_db ''admin'' 1 ''failed'' = (db', Inr Cancelled)"
    using t' by simp
  have f: "users (fst (adminSettle ledger_db ''admin'' 1 ''failed'')) = users ledger_db
      \<and> map tx_status (transactions (fst (adminSettle ledger_db ''admin'' 1 ''failed''))) = [''failed'']"
    using t' ledger_db_cancelled by simp
  have b: "balanceOf ledger_db 2 = Inr 50" "balanceOf ledger_db 3 = Inr 0"
    using h3 h4 by simp_all
  from b c0 c f0 f show ?thesis by (simp only: simp_thms)
qed

subsection \<open>Settlement with insufficient funds\<close>

text \<open>
  Claim C9. When an administrator settles a pending transaction as \<^verbatim>\<open>completed\<close> and the
  sender's current balance is below the amount (both being values of
  \<^verbatim>\<open>DECIMAL(10,2)\<close> columns), the settlement fails with InsufficientFundsError and the
  store is left as it was: the transaction is still pending and the balances of sender
  and receiver are unchanged.
\<close>

theorem adminSettle_insufficient_funds:
  assumes "find (\<lambda>t. tx_id t = txId) (transactions db) = Some t"
    and "tx_status t = ''pending''"
    and "balanceOf db (tx_senderId t) = Inr b"
    and "decimal_10_2 b" and "decimal_10_2 (tx_amount t)"
    and "b < tx_amount t"
  shows "adminSettle db ''admin'' txId ''completed'' = (db, Inl InsufficientFundsError)
     \<and> (\<forall>db' r. adminSettle db ''admin'' txId ''completed'' = (db', r) \<longrightarrow>
            find (\<lambda>t. tx_id t = txId) (transactions db') = Some t
          \<and> tx_status t = ''pending''
          \<and> balanceOf db' (tx_senderId t) = balanceOf db (tx_senderId t)
          \<and> balanceOf db' (tx_receiverId t) = balanceOf db (tx_receiverId t))"
proof -
  from assms(3) obtain s where s: "find (\<lambda>u. u_id u = tx_senderId t) (users db) = Some s"
    and b: "u_balance s = b"
    by (auto simp: balanceOf_find split: option.splits)
  have "parseFloat (u_balance s) < parseFloat (tx_amount t)"
    using parseFloat_less_decimal [OF assms(4,5)] assms(6) b by simp
  then have "adminSettle db ''admin'' txId ''completed'' = (db, Inl InsufficientFundsError)"
    using assms(1,2) s by (simp add: adminSettle_find)
  then show ?thesis using assms(1,2) by simp
qed

theorem adminSettle_insufficient_funds_witness:
  "adminSettle drifted_db ''admin'' 1 ''completed'' = (drifted_db, Inl InsufficientFundsError)
   \<and> balanceOf drifted_db 2 = Inr 20 \<and> decimal_10_2 20 \<and> decimal_10_2 30"
proof -
  let ?t = "\<lparr>tx_id = 1, tx_senderId = 2, tx_receiverId = 3, tx_amount = 30, tx_status = ''pending''\<rparr>"
  have h1: "find (\<lambda>t. tx_id t = 1) (transactions drifted_db) = Some ?t"
    by (simp add: drifted_db_def ledger_db_def)
  have h2: "tx_status ?t = ''pending''" by simp
  have h3: "balanceOf drifted_db (tx_senderId ?t) = Inr 20"
    by (simp add: balanceOf_def drifted_db_def update_balance_def ledger_db_def)
  have h4: "decimal_10_2 20" by (simp add: decimal_10_2_def)
  have h5: "decimal_10_2 (tx_amount ?t)" by (simp add: decimal_10_2_def)
  have h6: "20 < tx_amount ?t" by simp
  have r: "adminSettle drifted_db ''admin'' 1 ''completed'' = (drifted_db, Inl InsufficientFundsError)"
    using adminSettle_insufficient_funds [OF h1 h2 h3 h4 h5 h6] by (rule conjunct1)
  have b: "balanceOf drifted_db 2 = Inr 20" using h3 by simp
  have d: "decimal_10_2 30" using h5 by simp
  from r b h4 d show ?thesis by blast
qed


subsection \<open>Transaction status is one-way\<close>













subsection \<open>Settlement as a unit\<close>

lemma settle_run_adminSettle:
  "settle_run rq db =
     (fst (adminSettle db (rq_role rq) (rq_id rq) (rq_status rq)),
      Responded (snd (adminSettle db (rq_role rq) (rq_id rq) (rq_status rq))))"
  by (auto simp: settle_run_def settle_begin_def adminSettle_def eval_nat_numeral Let_def
        split: list.splits)

text \<open>
  Claim C1, as the handler has it. When an administrator settles as \<^verbatim>\<open>completed\<close> a
  pending transaction of amount \<open>A\<close> whose sender holds at least \<open>A\<close>, and the handler's
  statements reach the store with no other statement in between and none failing, then
  the sender is debited by \<open>A\<close>, the receiver is credited by \<open>A\<close> and the transaction is
  \<^verbatim>\<open>completed\<close>, all three; a second settlement of the same transaction after the first
  has responded fails with InvalidStateError and changes nothing, so the balances have
  moved by \<open>A\<close> once. The handler does not run in a store transaction.
\<close>

theorem adminSettle_uninterrupted:
  assumes "find (\<lambda>t. tx_id t = txId) (transactions db) = Some t"
    and "tx_status t = ''pending''"
    and "tx_senderId t \<noteq> tx_receiverId t"
    and "balanceOf db (tx_senderId t) = Inr bs"
    and "balanceOf db (tx_receiverId t) = Inr br"
    and "decimal_10_2 bs" and "decimal_10_2 (tx_amount t)"
    and "tx_amount t \<le> bs"
  shows "\<exists>db'. adminSettle db ''admin'' txId ''completed'' = (db', Inr Confirmed)
     \<and> settle_run \<lparr>rq_role = ''admin'', rq_id = txId, rq_status = ''completed''\<rparr> db
          = (db', Responded (Inr Confirmed))
     \<and> balanceOf db' (tx_senderId t) = Inr (bs - tx_amount t)
     \<and> balanceOf db' (tx_receiverId t) = Inr (br + tx_amount t)
     \<and> find (\<lambda>t. tx_id t = txId) (transactions db') = Some (t\<lparr>tx_status := ''completed''\<rparr>)
     \<and> (\<forall>status \<in> {''completed'', ''failed''}.
           adminSettle db' ''admin'' txId status = (db', Inl InvalidStateError)
         \<and> settle_run \<lparr>rq_role = ''admin'', rq_id = txId, rq_status = status\<rparr> db'
              = (db', Responded (Inl InvalidStateError)))"
proof -
  from assms(4) obtain s where s: "find (\<lambda>u. u_id u = tx_senderId t) (users db) = Some s"
    and b: "u_balance s = bs"
    by (auto simp: balanceOf_find split: option.splits)
  have "\<not> bs < tx_amount t" using assms(8) by simp
  then have nl: "\<not> parseFloat (u_balance s) < parseFloat (tx_amount t)"
    using parseFloat_less_decimal [OF assms(6,7)] b by simp
  define db' where "db' = update_status txId ''completed''
                 (update_balance (tx_receiverId t) (\<lambda>b. b + tx_amount t)
                    (update_balance (tx_senderId t) (\<lambda>b. b - tx_amount t) db))"
  have r: "adminSettle db ''admin'' txId ''completed'' = (db', Inr Confirmed)"
    using assms(1,2) s nl by (simp add: adminSettle_find db'_def)
  have run: "settle_run \<lparr>rq_role = ''admin'', rq_id = txId, rq_status = ''completed''\<rparr> db
          = (db', Responded (Inr Confirmed))"
    by (simp add: settle_run_adminSettle r)
  have bs': "balanceOf db' (tx_senderId t) = Inr (bs - tx_amount t)"
    unfolding db'_def using assms(3,4) by (simp add: balanceOf_update_balance)
  have br': "balanceOf db' (tx_receiverId t) = Inr (br + tx_amount t)"
    unfolding db'_def using assms(3,5) by (simp add: balanceOf_update_balance)
  have f': "find (\<lambda>t. tx_id t = txId) (transactions db') = Some (t\<lparr>tx_status := ''completed''\<rparr>)"
    unfolding db'_def using assms(1) by (simp add: find_update_status)
  have again: "adminSettle db' ''admin'' txId status = (db', Inl InvalidStateError)"
    if "status \<in> {''completed'', ''failed''}" for status
    using that f' by (auto simp: adminSettle_find)
  have again_run: "settle_run \<lparr>rq_role = ''admin'', rq_id = txId, rq_status = status\<rparr> db'
              = (db', Responded (Inl InvalidStateError))"
    if "status \<in> {''completed'', ''failed''}" for status
    by (simp add: settle_run_adminSettle again [OF that])
  show ?thesis using r run bs' br' f' again again_run by blast
qed

theorem adminSettle_uninterrupted_witness:
  "adminSettle ledger_db ''admin'' 1 ''completed'' = (settled_db, Inr Confirmed)
   \<and> settle_run settle_first ledger_db = (settled_db, Responded (Inr Confirmed))
   \<and> balanceOf settled_db 2 = Inr 20 \<and> balanceOf settled_db 3 = Inr 30
   \<and> adminSettle settled_db ''admin'' 1 ''completed'' = (settled_db, Inl InvalidStateError)"
proof -
  let ?t = "\<lparr>tx_id = 1, tx_senderId = 2, tx_receiverId = 3, tx_amount = 30, tx_status = ''pending''\<rparr>"
  have h1: "find (\<lambda>t. tx_id t = 1) (transactions ledger_db) = Some ?t"
    by (simp add: ledger_db_def)
  have h2: "tx_status ?t = ''pending''" by simp
  have h3: "tx_senderId ?t \<noteq> tx_receiverId ?t" by simp
  have h4: "balanceOf ledger_db (tx_senderId ?t) = Inr 50" by (simp add: balanceOf_def ledger_db_def)
  have h5: "balanceOf ledger_db (tx_receiverId ?t) = Inr 0" by (simp add: balanceOf_def ledger_db_def)
  have h6: "decimal_10_2 50" by (simp add: decimal_10_2_def)
  have h7: "decimal_10_2 (tx_amount ?t)" by (simp add: decimal_10_2_def)
  have h8: "tx_amount ?t \<le> 50" by simp
  have e: "adminSettle ledger_db ''admin'' 1 ''completed'' = (settled_db, Inr Confirmed)"
    using ledger_db_settled by (simp add: settled_db_def)
  from adminSettle_uninterrupted [OF h1 h2 h3 h4 h5 h6 h7 h8]
  obtain db' where a: "adminSettle ledger_db ''admin'' 1 ''completed'' = (db', Inr Confirmed)"
    and b: "settle_run \<lparr>rq_role = ''admin'', rq_id = 1, rq_status = ''completed''\<rparr> ledger_db
          = (db', Responded (Inr Confirmed))"
    and c: "balanceOf db' (tx_senderId ?t) = Inr (50 - tx_amount ?t)"
    and d: "balanceOf db' (tx_receiverId ?t) = Inr (0 + tx_amount ?t)"
    and g: "\<forall>status \<in> {''completed'', ''failed''}.
           adminSettle db' ''admin'' 1 status = (db', Inl InvalidStateError)
         \<and> settle_run \<lparr>rq_role = ''admin'', rq_id = 1, rq_status = status\<rparr> db'
              = (db', Responded (Inl InvalidStateError))"
    by blast
  have eq: "db' = settled_db" using a e by simp
  show ?thesis using e b c d g unfolding eq settle_first_def by simp
qed

text \<open>
  The claim as worded excludes the states below. When the process stops after the third
  statement of the handler, the sender is debited, the receiver is not credited and the
  transaction is still pending. When the statements of two settlements of the same
  transaction alternate, both read the transaction as pending and the balance as
  sufficient, both respond with success, and the amount has moved twice: the sender
  holding 50.00 ends at -10.00.
\<close>

theorem settlement_is_not_one_unit:
  "(settle_step settle_first ^^ 3) (ledger_db, settle_begin settle_first)
     = (ledger_db\<lparr>users := [\<lparr>u_id = 1, u_username = ''admin'', u_role = ''admin'', u_balance = 1000\<rparr>,
                            \<lparr>u_id = 2, u_username = ''alice'', u_role = ''user'', u_balance = 20\<rparr>,
                            \<lparr>u_id = 3, u_username = ''bob'', u_role = ''user'', u_balance = 0\<rparr>]\<rparr>,
        AtCredit \<lparr>tx_id = 1, tx_senderId = 2, tx_receiverId = 3, tx_amount = 30,
                  tx_status = ''pending''\<rparr>)
   \<and> interleave settle_first settle_first
        [True, False, True, False, True, False, True, False, True, False]
        (ledger_db, settle_begin settle_first, settle_begin settle_first)
     = (ledger_db\<lparr>users := [\<lparr>u_id = 1, u_username = ''admin'', u_role = ''admin'', u_balance = 1000\<rparr>,
                            \<lparr>u_id = 2, u_username = ''alice'', u_role = ''user'', u_balance = - 10\<rparr>,
                            \<lparr>u_id = 3, u_username = ''bob'', u_role = ''user'', u_balance = 60\<rparr>],
                   transactions := [\<lparr>tx_id = 1, tx_senderId = 2, tx_receiverId = 3, tx_amount = 30,
                                     tx_status = ''completed''\<rparr>]\<rparr>,
        Responded (Inr Confirmed), Responded (Inr Confirmed))"
  by (simp add: settle_first_def settle_begin_def ledger_db_def eval_nat_numeral
        update_balance_def update_status_def parseFloat_examples)


end
